theory Spec2Isabelle
  imports Main "HOL-Library.Word"
begin

section \<open>D-Bus notifications of qtutilities: misc/dbusnotification.cpp\<close>

text \<open>
  A shallow embedding of \<^verbatim>\<open>src/misc/dbusnotification.cpp\<close>. Each function of the source
  becomes a HOL function of the same name over an explicit program state (\<open>world\<close>):
  the live \<^verbatim>\<open>DBusNotification\<close> objects by address, the static map
  \<^verbatim>\<open>pendingNotifications\<close>, the state of the D-Bus interface, and a trace of the effects
  the functions have on their surroundings, in the order the source performs them
  (locking and unlocking the mutex, writes to the static map, emitted signals, calls on the
  D-Bus interface).
\<close>

subsection \<open>Basic types\<close>

text \<open>\<^verbatim>\<open>using IDType = uint;\<close> A \<^verbatim>\<open>QString\<close> is a sequence of UTF-16 code units.\<close>

type_synonym IDType = "32 word"
type_synonym uchar = "8 word"
type_synonym QChar = "16 word"
type_synonym QString = "QChar list"

text \<open>Addresses of \<^verbatim>\<open>DBusNotification\<close> objects and of \<^verbatim>\<open>QDBusPendingCallWatcher\<close> objects.\<close>

type_synonym addr = nat
type_synonym watcher = nat

text \<open>
  \<^verbatim>\<open>constexpr auto initialId = std::numeric_limits<IDType>::min();\<close>
  \<^verbatim>\<open>constexpr auto pendingId = std::numeric_limits<IDType>::max();\<close>
  \<^verbatim>\<open>constexpr auto pendingId2 = pendingId - 1;\<close>
\<close>

definition initialId :: IDType where
  "initialId = 0"

definition pendingId :: IDType where
  "pendingId = 0xFFFFFFFF"

definition pendingId2 :: IDType where
  "pendingId2 = pendingId - 1"

text \<open>The UTF-16 code units of the literals the source uses: U+2022 (bullet), space, line feed.\<close>

definition bullet :: QChar where
  "bullet = 0x2022"

definition str_bullet :: QString where
  "str_bullet = [bullet]"

definition str_bullet_space :: QString where
  "str_bullet_space = [bullet, 0x20]"

definition str_newline_bullet_space :: QString where
  "str_newline_bullet_space = [0x0A, bullet, 0x20]"

text \<open>\<^verbatim>\<open>QString::startsWith\<close> (case sensitive).\<close>

definition startsWith :: "QString \<Rightarrow> QString \<Rightarrow> bool" where
  "startsWith s p = (take (length p) s = p)"

text \<open>An ASCII literal as a \<^verbatim>\<open>QString\<close>.\<close>

definition QStringLiteral :: "string \<Rightarrow> QString" where
  "QStringLiteral cs = map (\<lambda>c. of_nat (of_char c)) cs"

subsection \<open>Images: the part of Qt's QImage that the image codec uses\<close>

text \<open>
  \<^verbatim>\<open>QImage\<close> belongs to Qt, not to this repository. The codec only calls it, so the calls are
  modelled after Qt's documentation, for a little-endian host and for four of Qt's formats:
  the null image, \<^verbatim>\<open>Format_RGB32\<close> and \<^verbatim>\<open>Format_ARGB32\<close> (one 32-bit word 0xAARRGGBB per
  pixel, hence the bytes B, G, R, A in memory) and \<^verbatim>\<open>Format_RGB888\<close> (the bytes R, G, B per
  pixel). An image owns a buffer of \<open>bytesPerLine * height\<close> bytes; every scan line starts
  at a multiple of four bytes.
\<close>

datatype Format = Format_Invalid | Format_RGB32 | Format_ARGB32 | Format_RGB888

record QImage =
  img_format :: Format
  img_width :: nat
  img_height :: nat
  img_bits :: "uchar list"

definition QImage_null :: QImage where
  "QImage_null = \<lparr>img_format = Format_Invalid, img_width = 0, img_height = 0, img_bits = []\<rparr>"

fun format_depth :: "Format \<Rightarrow> nat" where
  "format_depth Format_Invalid = 0"
| "format_depth Format_RGB32 = 32"
| "format_depth Format_ARGB32 = 32"
| "format_depth Format_RGB888 = 24"

definition depth :: "QImage \<Rightarrow> nat" where
  "depth img = format_depth (img_format img)"

definition stride :: "Format \<Rightarrow> nat \<Rightarrow> nat" where
  "stride f w = ((w * format_depth f + 31) div 32) * 4"

definition bytesPerLine :: "QImage \<Rightarrow> nat" where
  "bytesPerLine img = stride (img_format img) (img_width img)"

definition sizeInBytes :: "QImage \<Rightarrow> nat" where
  "sizeInBytes img = bytesPerLine img * img_height img"

definition isNull :: "QImage \<Rightarrow> bool" where
  "isNull img = (img_format img = Format_Invalid)"

definition hasAlphaChannel :: "QImage \<Rightarrow> bool" where
  "hasAlphaChannel img = (img_format img = Format_ARGB32)"

text \<open>The representation invariant of a \<^verbatim>\<open>QImage\<close>: a null image is empty, any other image
  has positive dimensions, the dimensions are values of an \<^verbatim>\<open>int\<close>, and the buffer has the
  size that Qt allocates for it.\<close>

definition wf_image :: "QImage \<Rightarrow> bool" where
  "wf_image img =
     (length (img_bits img) = sizeInBytes img \<and>
      img_width img < 2 ^ 31 \<and> img_height img < 2 ^ 31 \<and>
      (if isNull img then img_width img = 0 \<and> img_height img = 0
       else 0 < img_width img \<and> 0 < img_height img))"

definition scanLine :: "QImage \<Rightarrow> nat \<Rightarrow> uchar list" where
  "scanLine img y = take (bytesPerLine img) (drop (y * bytesPerLine img) (img_bits img))"

text \<open>\<^verbatim>\<open>QImage::pixel(x, y)\<close> as (alpha, red, green, blue); \<open>None\<close> outside the image.\<close>

definition pixel :: "QImage \<Rightarrow> nat \<Rightarrow> nat \<Rightarrow> (uchar \<times> uchar \<times> uchar \<times> uchar) option" where
  "pixel img x y =
     (if x < img_width img \<and> y < img_height img then
        (case img_format img of
           Format_Invalid \<Rightarrow> None
         | Format_RGB32 \<Rightarrow>
             (case take 4 (drop (4 * x) (scanLine img y)) of
                [b, g, r, a] \<Rightarrow> Some (0xFF, r, g, b) | _ \<Rightarrow> None)
         | Format_ARGB32 \<Rightarrow>
             (case take 4 (drop (4 * x) (scanLine img y)) of
                [b, g, r, a] \<Rightarrow> Some (a, r, g, b) | _ \<Rightarrow> None)
         | Format_RGB888 \<Rightarrow>
             (case take 3 (drop (3 * x) (scanLine img y)) of
                [r, g, b] \<Rightarrow> Some (0xFF, r, g, b) | _ \<Rightarrow> None))
      else None)"

text \<open>\<^verbatim>\<open>QImage::allGray\<close>: every pixel has equal red, green and blue. For images of depth 32
  and 24 \<^verbatim>\<open>QImage::isGrayscale\<close> is \<^verbatim>\<open>allGray\<close>; it is false for the null image.\<close>

definition allGray :: "QImage \<Rightarrow> bool" where
  "allGray img =
     list_all (\<lambda>y. list_all (\<lambda>x. case pixel img x y of
                                    Some (a, r, g, b) \<Rightarrow> r = g \<and> g = b
                                  | None \<Rightarrow> False)
                      [0..<img_width img])
       [0..<img_height img]"

definition isGrayscale :: "QImage \<Rightarrow> bool" where
  "isGrayscale img = (\<not> isNull img \<and> allGray img)"

text \<open>Exchanging the red and the blue byte of every pixel of a scan line.\<close>

fun swap32 :: "uchar list \<Rightarrow> uchar list" where
  "swap32 (b # g # r # a # rest) = r # g # b # a # swap32 rest"
| "swap32 rest = rest"

fun swap24 :: "uchar list \<Rightarrow> uchar list" where
  "swap24 (r # g # b # rest) = b # g # r # swap24 rest"
| "swap24 rest = rest"

definition swap_line :: "Format \<Rightarrow> nat \<Rightarrow> uchar list \<Rightarrow> uchar list" where
  "swap_line f w line =
     (case f of
        Format_RGB888 \<Rightarrow> swap24 (take (3 * w) line) @ drop (3 * w) line
      | _ \<Rightarrow> swap32 line)"

text \<open>
  \<^verbatim>\<open>QImage::rgbSwapped\<close>: a null image is returned as it is; otherwise a new image of the
  same format and size, filled scan line by scan line. Qt leaves the padding bytes at the
  end of a scan line of the new image uninitialised; here they are those of the source
  image, and no statement below depends on them.
\<close>

definition rgbSwapped :: "QImage \<Rightarrow> QImage" where
  "rgbSwapped img =
     (if isNull img then img
      else img\<lparr>img_bits :=
             concat (map (\<lambda>y. swap_line (img_format img) (img_width img) (scanLine img y))
                       [0..<img_height img])\<rparr>)"

text \<open>
  \<^verbatim>\<open>QImage(const uchar *data, int width, int height, Format format)\<close>: an image over an
  existing buffer whose scan lines are taken to be \<open>stride format width\<close> bytes long. It is
  the null image if a dimension is not positive. The constructor does not know the length
  of the buffer: using the image reads \<open>stride format width * height\<close> bytes from it,
  and the result is \<open>None\<close> when the buffer is shorter than that (a read past its end).
\<close>

definition QImage_from_data :: "uchar list \<Rightarrow> int \<Rightarrow> int \<Rightarrow> Format \<Rightarrow> QImage option" where
  "QImage_from_data buf w h f =
     (if w \<le> 0 \<or> h \<le> 0 \<or> f = Format_Invalid then Some QImage_null
      else if length buf < stride f (nat w) * nat h then None
      else Some \<lparr>img_format = f, img_width = nat w, img_height = nat h,
                 img_bits = take (stride f (nat w) * nat h) buf\<rparr>)"

subsection \<open>SwappedImage and NotificationImage\<close>

text \<open>\<^verbatim>\<open>SwappedImage::SwappedImage(const QImage &image) : QImage(image.rgbSwapped())\<close>\<close>

definition SwappedImage :: "QImage \<Rightarrow> QImage" where
  "SwappedImage img = rgbSwapped img"

record NotificationImage =
  width :: int
  height :: int
  rowstride :: int
  hasAlpha :: bool
  channels :: int
  bitsPerSample :: int
  data :: "uchar list"
  isValid :: bool

text \<open>
  \<^verbatim>\<open>static_cast<int>\<close> and \<^verbatim>\<open>static_cast<qint32>\<close> of a byte count (\<^verbatim>\<open>sizeInBytes()\<close> and
  \<^verbatim>\<open>bytesPerLine()\<close> are wider than 32 bits): the count modulo \<open>2^32\<close>, read as a signed
  32-bit value. A count of \<open>2^31\<close> or more does not come through as it is.
\<close>

definition static_cast_int :: "nat \<Rightarrow> int" where
  "static_cast_int x = (let m = int x mod 2 ^ 32 in if m < 2 ^ 31 then m else m - 2 ^ 32)"

text \<open>
  \<^verbatim>\<open>QByteArray(const char *data, int size)\<close>: a copy of the first \<open>n\<close> bytes of the
  buffer for the size \<open>n\<close>; for a negative size, of the bytes before the first zero byte. \<open>None\<close>: the
  copy reads past the end of the buffer.
\<close>

definition QByteArray_from :: "uchar list \<Rightarrow> int \<Rightarrow> uchar list option" where
  "QByteArray_from buf n =
     (if n < 0 then
        (if 0 \<in> set buf then Some (takeWhile (\<lambda>c. c \<noteq> 0) buf) else None)
      else if nat n \<le> length buf then Some (take (nat n) buf)
      else None)"

text \<open>
  \<^verbatim>\<open>NotificationImage::NotificationImage(const QImage &image)\<close>, the members in the order of
  their initialisers: \<open>rowstride\<close> is \<^verbatim>\<open>static_cast<qint32>(image.bytesPerLine())\<close>, and
  \<open>data\<close> is the byte array of
  \<^verbatim>\<open>reinterpret_cast<const char *>(image.bits()), static_cast<int>(image.sizeInBytes())\<close>.
  \<open>channels\<close> is 1, 3 or 4, so the division is defined. The body of the constructor only
  fills the \<^verbatim>\<open>QDBusArgument\<close> base for marshalling. \<open>None\<close>: the copy of the bytes reads
  past the end of the buffer of the image.
\<close>

definition NotificationImage_of_QImage :: "QImage \<Rightarrow> NotificationImage option" where
  "NotificationImage_of_QImage img =
     (let w = int (img_width img);
          h = int (img_height img);
          rs = static_cast_int (bytesPerLine img);
          ha = hasAlphaChannel img;
          ch = (if isGrayscale img then 1 else if ha then 4 else 3);
          bps = int (depth img) div ch
      in map_option
           (\<lambda>d. \<lparr>width = w, height = h, rowstride = rs, hasAlpha = ha, channels = ch,
                  bitsPerSample = bps, data = d, isValid = (\<not> isNull img)\<rparr>)
           (QByteArray_from (img_bits img) (static_cast_int (sizeInBytes img))))"

text \<open>\<^verbatim>\<open>NotificationImage::NotificationImage(SwappedImage image)\<close>, as \<^verbatim>\<open>setImage\<close> calls it:
  \<^verbatim>\<open>NotificationImage(SwappedImage(image))\<close>.\<close>

definition encode :: "QImage \<Rightarrow> NotificationImage option" where
  "encode img = NotificationImage_of_QImage (SwappedImage img)"

text \<open>\<^verbatim>\<open>NotificationImage::toQImage\<close>.\<close>

definition toQImage :: "NotificationImage \<Rightarrow> QImage option" where
  "toQImage ni =
     (if isValid ni then
        map_option rgbSwapped
          (QImage_from_data (data ni) (width ni) (height ni)
             (if hasAlpha ni then Format_ARGB32 else Format_RGB32))
      else Some QImage_null)"

text \<open>Encoding a bitmap and decoding the result.\<close>

definition roundtrip :: "QImage \<Rightarrow> QImage option" where
  "roundtrip img = (case encode img of None \<Rightarrow> None | Some ni \<Rightarrow> toQImage ni)"

text \<open>Two images show the same picture: same size, same colour at every position.\<close>

definition pixel_identical :: "QImage \<Rightarrow> QImage \<Rightarrow> bool" where
  "pixel_identical p q =
     (img_width p = img_width q \<and> img_height p = img_height q \<and>
      list_all (\<lambda>y. list_all (\<lambda>x. pixel p x y = pixel q x y) [0..<img_width q])
        [0..<img_height q])"

subsection \<open>Notification objects and the program state\<close>

text \<open>
  Modelled from the spec: the enumeration \<^verbatim>\<open>NotificationCloseReason\<close> is declared in
  \<^verbatim>\<open>dbusnotification.h\<close>, which is not among the sources. The spec names its values and
  gives the reason codes of the daemon that the source casts to it: 1 = Expired,
  2 = Dismissed, 3 = ClosedByRequest.
\<close>

datatype NotificationCloseReason = Undefined | Expired | Dismissed | ClosedByRequest | ActionInvoked

text \<open>The value of a \<^verbatim>\<open>QVariant\<close> in the hints: an image or a string.\<close>

datatype QVariant = Variant_Image NotificationImage | Variant_String QString

record DBusNotification =
  m_id :: IDType
  m_watcher :: "watcher option"
  m_applicationName :: QString
  m_title :: QString
  m_msg :: QString
  m_icon :: QString
  m_timeout :: int
  m_actions :: "QString list"
  m_hints :: "(QString \<times> QVariant) list"

text \<open>The signals of a \<^verbatim>\<open>DBusNotification\<close>, the methods of the D-Bus interface
  \<^verbatim>\<open>org.freedesktop.Notifications\<close> (\<open>Notify\<close> with its eight arguments in the order of
  the call), and the reply to \<open>Notify\<close> as a \<^verbatim>\<open>QDBusPendingReply<uint>\<close>.\<close>

datatype signal = Sig_shown | Sig_error | Sig_closed NotificationCloseReason | Sig_actionInvoked QString

datatype ipc =
    Notify QString IDType QString QString QString "QString list" "(QString \<times> QVariant) list" int
  | CloseNotification IDType
  | GetCapabilities

datatype reply = ReplyError | ReplyValue IDType

datatype event =
    Lock
  | Unlock
  | Registry_insert IDType addr
  | Registry_erase IDType
  | Emit addr signal
  | Call ipc

text \<open>
  The program state. \<open>objects\<close> are the live \<^verbatim>\<open>DBusNotification\<close> objects;
  \<open>pendingNotifications\<close> is the static \<^verbatim>\<open>std::map<IDType, DBusNotification *>\<close>;
  \<open>interfaceValid\<close> is what \<^verbatim>\<open>s_dbusInterface->isValid()\<close> returns;
  \<open>applicationName\<close> is \<^verbatim>\<open>QCoreApplication::applicationName()\<close>; \<open>pendingCalls\<close> are
  the asynchronous \<open>Notify\<close> calls that have been sent and whose reply has not been
  delivered, each with its watcher and the object the watcher reports to; \<open>nextWatcher\<close>
  is the address that the next \<^verbatim>\<open>new QDBusPendingCallWatcher\<close> returns.
\<close>

record world =
  objects :: "addr \<Rightarrow> DBusNotification option"
  pendingNotifications :: "IDType \<Rightarrow> addr option"
  interfaceValid :: bool
  applicationName :: QString
  pendingCalls :: "(watcher \<times> addr) list"
  nextWatcher :: watcher
  trace :: "event list"

definition record_event :: "event \<Rightarrow> world \<Rightarrow> world" where
  "record_event e s = s\<lparr>trace := trace s @ [e]\<rparr>"

definition set_object :: "addr \<Rightarrow> DBusNotification \<Rightarrow> world \<Rightarrow> world" where
  "set_object a n s = s\<lparr>objects := (objects s)(a \<mapsto> n)\<rparr>"

definition registry_insert :: "IDType \<Rightarrow> addr \<Rightarrow> world \<Rightarrow> world" where
  "registry_insert i a s =
     record_event (Registry_insert i a)
       (s\<lparr>pendingNotifications := (pendingNotifications s)(i \<mapsto> a)\<rparr>)"

definition registry_erase :: "IDType \<Rightarrow> world \<Rightarrow> world" where
  "registry_erase i s =
     record_event (Registry_erase i)
       (s\<lparr>pendingNotifications := (pendingNotifications s)(i := None)\<rparr>)"

text \<open>The four states of the spec, and the state that an identifier stands for.\<close>

datatype state = Unassigned | PendingSingle | PendingCoalesced | Assigned IDType

definition state_of :: "IDType \<Rightarrow> state" where
  "state_of i =
     (if i = initialId then Unassigned
      else if i = pendingId then PendingSingle
      else if i = pendingId2 then PendingCoalesced
      else Assigned i)"

text \<open>\<^verbatim>\<open>DBusNotification::DBusNotification(const QString &title, const QString &icon, int timeout, QObject *parent)\<close>\<close>

definition DBusNotification_new :: "QString \<Rightarrow> QString \<Rightarrow> int \<Rightarrow> DBusNotification" where
  "DBusNotification_new title icon timeout =
     \<lparr>m_id = initialId, m_watcher = None, m_applicationName = [], m_title = title,
      m_msg = [], m_icon = icon, m_timeout = timeout, m_actions = [], m_hints = []\<rparr>"

text \<open>\<^verbatim>\<open>DBusNotification::isPending\<close>\<close>

definition isPending :: "DBusNotification \<Rightarrow> bool" where
  "isPending n = (m_id n = pendingId \<or> m_id n = pendingId2)"

text \<open>
  Modelled from the spec: \<^verbatim>\<open>DBusNotification::isVisible\<close> is defined in
  \<^verbatim>\<open>dbusnotification.h\<close>, which is not among the sources. The spec: true iff the state is
  \<open>Assigned\<close>.
\<close>

definition isVisible :: "DBusNotification \<Rightarrow> bool" where
  "isVisible n = (case state_of (m_id n) of Assigned i \<Rightarrow> True | _ \<Rightarrow> False)"

text \<open>
  \<^verbatim>\<open>DBusNotification::show()\<close>. \<open>None\<close>: the object does not exist. The arguments of
  \<open>Notify\<close> are evaluated before \<open>m_id\<close> is set to \<open>pendingId\<close>, so the call carries the
  identifier that the object had. \<^verbatim>\<open>delete m_watcher\<close> gives up the watcher that the object
  held: a call of that watcher that is still pending stays pending, and its reply finds
  another watcher in \<open>m_watcher\<close>. The new watcher has an address that no watcher had
  before.
\<close>

definition "show" :: "addr \<Rightarrow> world \<Rightarrow> (bool \<times> world) option" where
  "show this s =
     (case objects s this of
        None \<Rightarrow> None
      | Some n \<Rightarrow>
          if isPending n then Some (True, set_object this (n\<lparr>m_id := pendingId2\<rparr>) s)
          else if \<not> interfaceValid s then Some (False, record_event (Emit this Sig_error) s)
          else
            let w = nextWatcher s;
                s1 = record_event
                       (Call (Notify (if m_applicationName n = [] then applicationName s
                                      else m_applicationName n)
                                (m_id n) (m_icon n) (m_title n) (m_msg n) (m_actions n)
                                (m_hints n) (m_timeout n))) s;
                s2 = s1\<lparr>pendingCalls := pendingCalls s1 @ [(w, this)], nextWatcher := Suc w\<rparr>
            in Some (True, set_object this (n\<lparr>m_watcher := Some w, m_id := pendingId\<rparr>) s2))"

text \<open>\<^verbatim>\<open>DBusNotification::show(const QString &message)\<close>\<close>

definition show_message :: "addr \<Rightarrow> QString \<Rightarrow> world \<Rightarrow> (bool \<times> world) option" where
  "show_message this message s =
     (case objects s this of
        None \<Rightarrow> None
      | Some n \<Rightarrow> show this (set_object this (n\<lparr>m_msg := message\<rparr>) s))"

text \<open>\<^verbatim>\<open>DBusNotification::update(const QString &line)\<close>\<close>

definition update :: "addr \<Rightarrow> QString \<Rightarrow> world \<Rightarrow> (bool \<times> world) option" where
  "update this line s =
     (case objects s this of
        None \<Rightarrow> None
      | Some n \<Rightarrow>
          let msg =
                (if (\<not> isPending n \<and> \<not> isVisible n) \<or> m_msg n = [] then line
                 else
                   let m1 = (if \<not> startsWith (m_msg n) str_bullet
                             then str_bullet_space @ m_msg n else m_msg n)
                   in (m1 @ str_newline_bullet_space) @ line)
          in show this (set_object this (n\<lparr>m_msg := msg\<rparr>) s))"

text \<open>\<^verbatim>\<open>DBusNotification::hide()\<close>\<close>

definition hide :: "addr \<Rightarrow> world \<Rightarrow> (bool \<times> world) option" where
  "hide this s =
     (case objects s this of
        None \<Rightarrow> None
      | Some n \<Rightarrow>
          if m_id n \<noteq> 0 then Some (True, record_event (Call (CloseNotification (m_id n))) s)
          else Some (False, s))"

text \<open>\<^verbatim>\<open>DBusNotification::queryCapabilities\<close>, a static function, up to the call; the callback
  runs when the reply has arrived.\<close>

definition queryCapabilities :: "world \<Rightarrow> bool \<times> world" where
  "queryCapabilities s =
     (if \<not> interfaceValid s then (False, s)
      else (True, record_event (Call GetCapabilities) s))"

text \<open>\<^verbatim>\<open>DBusNotification::~DBusNotification()\<close>: the mutex is released at the end of the inner
  block, before \<^verbatim>\<open>hide()\<close>.\<close>

definition destroy :: "addr \<Rightarrow> world \<Rightarrow> world option" where
  "destroy this s =
     (case objects s this of
        None \<Rightarrow> None
      | Some n \<Rightarrow>
          let s1 = record_event Lock s;
              s2 = (case pendingNotifications s1 (m_id n) of
                      None \<Rightarrow> s1
                    | Some p \<Rightarrow> registry_erase (m_id n) s1);
              s3 = record_event Unlock s2
          in map_option (\<lambda>(r, s4). s4\<lparr>objects := (objects s4)(this := None)\<rparr>) (hide this s3))"

text \<open>
  \<^verbatim>\<open>DBusNotification::handleNotifyResult(QDBusPendingCallWatcher *watcher)\<close>, with the reply
  that the watcher holds. The mutex is held for the inner block only.
\<close>

definition handleNotifyResult :: "addr \<Rightarrow> watcher \<Rightarrow> reply \<Rightarrow> world \<Rightarrow> world option" where
  "handleNotifyResult this w returnValue s =
     (case objects s this of
        None \<Rightarrow> None
      | Some n \<Rightarrow>
          if Some w \<noteq> m_watcher n then Some s
          else
            let n1 = n\<lparr>m_watcher := None\<rparr> in
            (case returnValue of
               ReplyError \<Rightarrow>
                 Some (record_event (Emit this Sig_error)
                         (set_object this (n1\<lparr>m_id := initialId\<rparr>) s))
             | ReplyValue i \<Rightarrow>
                 let needsUpdate = (m_id n1 = pendingId2);
                     s1 = record_event Lock s;
                     s2 = registry_insert i this (set_object this (n1\<lparr>m_id := i\<rparr>) s1);
                     s3 = record_event Unlock s2;
                     s4 = record_event (Emit this Sig_shown) s3
                 in if needsUpdate then map_option snd (show this s4) else Some s4))"

text \<open>
  The expression
  \<^verbatim>\<open>reason >= 1 && reason <= 3 ? static_cast<NotificationCloseReason>(reason) : NotificationCloseReason::Undefined\<close>
  of \<^verbatim>\<open>handleNotificationClosed\<close>, the cast with the values of the enumeration as above.
\<close>

definition closeReason :: "32 word \<Rightarrow> NotificationCloseReason" where
  "closeReason reason =
     (if reason \<ge> 1 \<and> reason \<le> 3
      then (if reason = 1 then Expired else if reason = 2 then Dismissed else ClosedByRequest)
      else Undefined)"

text \<open>
  \<^verbatim>\<open>DBusNotification::handleNotificationClosed(IDType id, uint reason)\<close>, a static function.
  The mutex is held until the function returns. \<open>None\<close>: the map holds the address of an
  object that does not exist any more.
\<close>

definition handleNotificationClosed :: "IDType \<Rightarrow> 32 word \<Rightarrow> world \<Rightarrow> world option" where
  "handleNotificationClosed i reason s =
     (let s1 = record_event Lock s in
      case pendingNotifications s1 i of
        None \<Rightarrow> Some (record_event Unlock s1)
      | Some notification \<Rightarrow>
          (case objects s1 notification of
             None \<Rightarrow> None
           | Some n \<Rightarrow>
               let s2 = set_object notification (n\<lparr>m_id := initialId\<rparr>) s1;
                   s3 = record_event (Emit notification (Sig_closed (closeReason reason))) s2;
                   s4 = registry_erase i s3
               in Some (record_event Unlock s4)))"

text \<open>
  \<^verbatim>\<open>DBusNotification::handleActionInvoked(IDType id, const QString &action)\<close>, a static
  function. The mutex is held until the function returns, so also during the call of
  \<^verbatim>\<open>CloseNotification\<close>. The argument of that call is \<^verbatim>\<open>i->first\<close>, read after
  \<^verbatim>\<open>pendingNotifications.erase(i)\<close> has destroyed the element that \<^verbatim>\<open>i\<close> refers to: the
  C++ standard leaves the value of that read undefined. It is the third argument here,
  \<open>erased_first\<close>: whatever the memory of the erased element holds at that moment.
\<close>

definition handleActionInvoked :: "IDType \<Rightarrow> QString \<Rightarrow> IDType \<Rightarrow> world \<Rightarrow> world option" where
  "handleActionInvoked i action erased_first s =
     (let s1 = record_event Lock s in
      case pendingNotifications s1 i of
        None \<Rightarrow> Some (record_event Unlock s1)
      | Some notification \<Rightarrow>
          (case objects s1 notification of
             None \<Rightarrow> None
           | Some n \<Rightarrow>
               let s2 = record_event (Emit notification (Sig_actionInvoked action)) s1;
                   s3 = record_event (Emit notification (Sig_closed ActionInvoked)) s2;
                   s4 = set_object notification (n\<lparr>m_id := initialId\<rparr>) s3;
                   s5 = registry_erase i s4;
                   s6 = record_event (Call (CloseNotification erased_first)) s5
               in Some (record_event Unlock s6)))"

subsection \<open>Reading a trace\<close>

text \<open>The calls on the D-Bus interface that a trace makes while the mutex is held; the
  first argument says whether it is held at the start.\<close>

fun calls_under_lock :: "bool \<Rightarrow> event list \<Rightarrow> ipc list" where
  "calls_under_lock held [] = []"
| "calls_under_lock held (Lock # es) = calls_under_lock True es"
| "calls_under_lock held (Unlock # es) = calls_under_lock False es"
| "calls_under_lock held (Call c # es) =
     (if held then c # calls_under_lock held es else calls_under_lock held es)"
| "calls_under_lock held (e # es) = calls_under_lock held es"

fun is_Notify :: "event \<Rightarrow> bool" where
  "is_Notify (Call (Notify app i icon title body actions hints timeout)) = True"
| "is_Notify e = False"

definition notify_count :: "world \<Rightarrow> nat" where
  "notify_count s = length (filter is_Notify (trace s))"

subsection \<open>Sequences of calls and replies\<close>

text \<open>
  What can happen to one notification object between its construction and a later moment:
  the caller calls \<open>show()\<close>, \<open>show(message)\<close> or \<open>update(line)\<close>, the daemon appears or
  disappears, and the reply to a pending \<open>Notify\<close> call is delivered to
  \<open>handleNotifyResult\<close>. A reply can only be delivered for a call that is pending
  (\<open>None\<close> otherwise), and delivering it ends the call.
\<close>

datatype operation =
    Op_show
  | Op_show_message QString
  | Op_update QString
  | Op_interface bool
  | Op_reply watcher reply

definition deliver :: "addr \<Rightarrow> watcher \<Rightarrow> reply \<Rightarrow> world \<Rightarrow> world option" where
  "deliver this w r s =
     (if (w, this) \<in> set (pendingCalls s)
      then handleNotifyResult this w r (s\<lparr>pendingCalls := remove1 (w, this) (pendingCalls s)\<rparr>)
      else None)"

fun step :: "addr \<Rightarrow> operation \<Rightarrow> world \<Rightarrow> world option" where
  "step this Op_show s = map_option snd (show this s)"
| "step this (Op_show_message m) s = map_option snd (show_message this m s)"
| "step this (Op_update l) s = map_option snd (update this l s)"
| "step this (Op_interface v) s = Some (s\<lparr>interfaceValid := v\<rparr>)"
| "step this (Op_reply w r) s = deliver this w r s"

fun run :: "addr \<Rightarrow> operation list \<Rightarrow> world \<Rightarrow> world option" where
  "run this [] s = Some s"
| "run this (x # xs) s = (case step this x s of None \<Rightarrow> None | Some s' \<Rightarrow> run this xs s')"

text \<open>The \<open>Notify\<close> calls of an object that are outstanding.\<close>

definition outstanding :: "addr \<Rightarrow> world \<Rightarrow> (watcher \<times> addr) list" where
  "outstanding this s = filter (\<lambda>c. snd c = this) (pendingCalls s)"

text \<open>A state in which the object has just been constructed.\<close>

definition fresh :: "addr \<Rightarrow> world \<Rightarrow> bool" where
  "fresh this s =
     (case objects s this of
        None \<Rightarrow> False
      | Some n \<Rightarrow> m_id n = initialId \<and> m_watcher n = None \<and> outstanding this s = [])"

text \<open>
  The link between an object and its outstanding calls that the functions maintain: an
  object without a watcher has no call outstanding; an object with a watcher has exactly
  the call of that watcher outstanding, and is pending.
\<close>

definition watched :: "addr \<Rightarrow> world \<Rightarrow> bool" where
  "watched this s =
     (case objects s this of
        None \<Rightarrow> False
      | Some n \<Rightarrow>
          (case m_watcher n of
             None \<Rightarrow> outstanding this s = []
           | Some w \<Rightarrow> outstanding this s = [(w, this)] \<and> isPending n))"

text \<open>The operations that are calls of the caller or changes of the daemon, not replies.\<close>

fun is_call :: "operation \<Rightarrow> bool" where
  "is_call (Op_reply w r) = False"
| "is_call x = True"

text \<open>The object at an address in the state that a function returns, and the events that a
  function has added to the trace.\<close>

definition object_after :: "addr \<Rightarrow> world option \<Rightarrow> DBusNotification option" where
  "object_after a r = (case r of None \<Rightarrow> None | Some s \<Rightarrow> objects s a)"

definition added_events :: "world \<Rightarrow> world \<Rightarrow> event list" where
  "added_events s s' = drop (length (trace s)) (trace s')"

subsection \<open>Example states\<close>

text \<open>
  The notification of the spec's scenarios: title "Build", message "Started", at address 0,
  with a given identifier and watcher; and a state that holds it, with a given content of
  \<open>pendingNotifications\<close>, a daemon that is or is not available, and given pending calls.
\<close>

definition example_handle :: "IDType \<Rightarrow> watcher option \<Rightarrow> DBusNotification" where
  "example_handle i w =
     (DBusNotification_new (QStringLiteral ''Build'') [] 0)
       \<lparr>m_id := i, m_watcher := w, m_msg := QStringLiteral ''Started''\<rparr>"

definition example_world ::
  "DBusNotification \<Rightarrow> (IDType \<times> addr) list \<Rightarrow> bool \<Rightarrow> (watcher \<times> addr) list \<Rightarrow> world" where
  "example_world n reg valid calls =
     \<lparr>objects = Map.empty(0 \<mapsto> n), pendingNotifications = map_of reg, interfaceValid = valid,
      applicationName = QStringLiteral ''app'', pendingCalls = calls,
      nextWatcher = length calls, trace = []\<rparr>"

text \<open>A 1x1 image in \<^verbatim>\<open>Format_RGB888\<close> (red 1, green 2, blue 3, one byte of padding) and a 2x1
  image in \<^verbatim>\<open>Format_ARGB32\<close>.\<close>

definition example_rgb888 :: QImage where
  "example_rgb888 =
     \<lparr>img_format = Format_RGB888, img_width = 1, img_height = 1, img_bits = [1, 2, 3, 0]\<rparr>"

definition example_argb32 :: QImage where
  "example_argb32 =
     \<lparr>img_format = Format_ARGB32, img_width = 2, img_height = 1,
      img_bits = [1, 2, 3, 4, 5, 6, 7, 8]\<rparr>"

section \<open>show, update and hide\<close>

lemmas example_defs = example_world_def example_handle_def DBusNotification_new_def

text \<open>What \<open>show\<close> never touches: it returns, the other objects, the message of its own
  object and the static map stay as they are, and the trace only grows.\<close>

lemma show_effect:
  assumes "objects s this = Some n"
  shows "\<exists>r s' n' rest. show this s = Some (r, s') \<and> objects s' = (objects s)(this \<mapsto> n') \<and>
           m_msg n' = m_msg n \<and> pendingNotifications s' = pendingNotifications s \<and>
           trace s' = trace s @ rest"
proof -
  have "(objects s)(this \<mapsto> n) = objects s"
    using assms by (rule fun_upd_idem)
  then have "objects s = (objects s)(this \<mapsto> n)"
    by simp
  then show ?thesis
    using assms by (auto simp: show_def Let_def set_object_def record_event_def)
qed

text \<open>
  Claim C9. \<open>hide()\<close> returns true exactly if the identifier of the notification is not
  zero, and exactly then it sends one \<open>CloseNotification\<close> request, with that identifier.
  On an unassigned notification (identifier 0) it returns false and leaves the whole state
  as it is. In both cases the objects, the static map and the pending calls are as before:
  \<open>hide()\<close> does not change the state of the notification.
\<close>

theorem hide_closes_iff_identifier:
  assumes "objects s this = Some n"
  shows "\<exists>s'. hide this s = Some (m_id n \<noteq> initialId, s') \<and>
           trace s' = trace s @
             (if m_id n \<noteq> initialId then [Call (CloseNotification (m_id n))] else []) \<and>
           objects s' = objects s \<and> pendingNotifications s' = pendingNotifications s \<and>
           pendingCalls s' = pendingCalls s \<and>
           (m_id n = initialId \<longrightarrow> s' = s)"
  using assms by (simp add: hide_def initialId_def record_event_def)

theorem hide_closes_iff_identifier_witness:
  "objects (example_world (example_handle 7 None) [(7, 0)] True []) 0 =
     Some (example_handle 7 None) \<and>
   (\<exists>s'. hide 0 (example_world (example_handle 7 None) [(7, 0)] True []) = Some (True, s') \<and>
      trace s' = [Call (CloseNotification 7)]) \<and>
   objects (example_world (example_handle 0 None) [] True []) 0 = Some (example_handle 0 None) \<and>
   hide 0 (example_world (example_handle 0 None) [] True []) =
     Some (False, example_world (example_handle 0 None) [] True [])"
  using hide_closes_iff_identifier
      [of "example_world (example_handle 7 None) [(7, 0)] True []" 0 "example_handle 7 None"]
    hide_closes_iff_identifier
      [of "example_world (example_handle 0 None) [] True []" 0 "example_handle 0 None"]
  by (auto simp: example_defs initialId_def)

text \<open>
  Claim C2, as amended. If \<open>show()\<close> is called on a notification that is not pending while
  the D-Bus interface is not valid, it emits \<open>error\<close>, returns false and sends no request;
  the notification keeps its identifier, so its state is what it was before the call (an
  unassigned notification stays unassigned, an assigned one stays assigned).
\<close>

theorem show_unavailable:
  assumes "objects s this = Some n" and "\<not> isPending n" and "\<not> interfaceValid s"
  shows "\<exists>s'. show this s = Some (False, s') \<and> trace s' = trace s @ [Emit this Sig_error] \<and>
           objects s' this = Some n \<and> objects s' = objects s \<and>
           pendingNotifications s' = pendingNotifications s \<and> pendingCalls s' = pendingCalls s"
  using assms by (simp add: show_def record_event_def)

theorem show_unavailable_witness:
  "objects (example_world (example_handle 7 None) [(7, 0)] False []) 0 =
     Some (example_handle 7 None) \<and>
   \<not> isPending (example_handle 7 None) \<and>
   \<not> interfaceValid (example_world (example_handle 7 None) [(7, 0)] False []) \<and>
   (\<exists>s'. show 0 (example_world (example_handle 7 None) [(7, 0)] False []) = Some (False, s') \<and>
      trace s' = [Emit 0 Sig_error] \<and> objects s' 0 = Some (example_handle 7 None))"
proof -
  have a: "objects (example_world (example_handle 7 None) [(7, 0)] False []) 0 =
             Some (example_handle 7 None)"
    and b: "\<not> isPending (example_handle 7 None)"
    and c: "\<not> interfaceValid (example_world (example_handle 7 None) [(7, 0)] False [])"
    by (simp_all add: example_defs isPending_def pendingId_def pendingId2_def)
  have t: "trace (example_world (example_handle 7 None) [(7, 0)] False []) = []"
    by (simp add: example_world_def)
  have "\<exists>s'. show 0 (example_world (example_handle 7 None) [(7, 0)] False []) = Some (False, s') \<and>
      trace s' = [Emit 0 Sig_error] \<and> objects s' 0 = Some (example_handle 7 None)"
    using show_unavailable [OF a b c] by (auto simp: t)
  with a b c show ?thesis
    by simp
qed

text \<open>
  Claim C2 as it is stated fails: a notification with the identifier 7 (assigned) whose
  \<open>show()\<close> finds the interface not valid has the identifier 7 afterwards, not 0.
\<close>

theorem show_unavailable_counterexample:
  "objects (example_world (example_handle 7 None) [(7, 0)] False []) 0 =
     Some (example_handle 7 None) \<and>
   \<not> isPending (example_handle 7 None) \<and>
   \<not> interfaceValid (example_world (example_handle 7 None) [(7, 0)] False []) \<and>
   show 0 (example_world (example_handle 7 None) [(7, 0)] False []) =
     Some (False, record_event (Emit 0 Sig_error)
                    (example_world (example_handle 7 None) [(7, 0)] False [])) \<and>
   map_option m_id
     (objects (record_event (Emit 0 Sig_error)
                 (example_world (example_handle 7 None) [(7, 0)] False [])) 0) = Some 7 \<and>
   state_of 7 = Assigned 7 \<and> (7 :: IDType) \<noteq> initialId"
  by (simp add: example_defs show_def isPending_def pendingId_def pendingId2_def
      record_event_def state_of_def initialId_def)

text \<open>
  Claim C7. \<open>update(line)\<close> sets the message and then is \<open>show()\<close>. The new message is
  \<open>line\<close> if the notification is neither pending nor visible or its message is empty;
  otherwise it is the old message, with a bullet and a space put in front unless it starts
  with a bullet already, followed by a line feed, a bullet, a space and \<open>line\<close>. The
  notification has the new message after the call, whatever \<open>show()\<close> returns.
\<close>

theorem update_message:
  assumes "objects s this = Some n"
  shows "let msg = (if (\<not> isPending n \<and> \<not> isVisible n) \<or> m_msg n = [] then line
                    else (if take 1 (m_msg n) = [bullet] then m_msg n
                          else [bullet, 0x20] @ m_msg n) @ [0x0A, bullet, 0x20] @ line)
         in update this line s =
              show this (s\<lparr>objects := (objects s)(this \<mapsto> n\<lparr>m_msg := msg\<rparr>)\<rparr>) \<and>
            (\<exists>r s' n'. update this line s = Some (r, s') \<and> objects s' this = Some n' \<and>
                        m_msg n' = msg)"
proof -
  define msg where
    "msg = (if (\<not> isPending n \<and> \<not> isVisible n) \<or> m_msg n = [] then line
            else (if take 1 (m_msg n) = [bullet] then m_msg n
                  else [bullet, 0x20] @ m_msg n) @ [0x0A, bullet, 0x20] @ line)"
  let ?s1 = "s\<lparr>objects := (objects s)(this \<mapsto> n\<lparr>m_msg := msg\<rparr>)\<rparr>"
  have u: "update this line s = show this ?s1"
    using assms
    by (simp add: update_def Let_def set_object_def msg_def startsWith_def str_bullet_def
        str_bullet_space_def str_newline_bullet_space_def)
  have "objects ?s1 this = Some (n\<lparr>m_msg := msg\<rparr>)"
    by simp
  from show_effect [OF this] obtain r s' n' where
    "show this ?s1 = Some (r, s')" "objects s' this = Some n'" "m_msg n' = msg"
    by auto
  with u show ?thesis
    unfolding msg_def [symmetric] Let_def by auto
qed

theorem update_message_witness:
  "objects (example_world (example_handle 7 None) [(7, 0)] True []) 0 =
     Some (example_handle 7 None) \<and>
   (\<exists>r s' n'. update 0 (QStringLiteral ''Step 2'')
                 (example_world (example_handle 7 None) [(7, 0)] True []) = Some (r, s') \<and>
       objects s' 0 = Some n' \<and>
       m_msg n' = [bullet, 0x20] @ QStringLiteral ''Started'' @ [0x0A, bullet, 0x20] @
                    QStringLiteral ''Step 2'')"
proof -
  have a: "objects (example_world (example_handle 7 None) [(7, 0)] True []) 0 =
             Some (example_handle 7 None)"
    by (simp add: example_defs)
  have b: "isVisible (example_handle 7 None)"
    by (simp add: example_defs isVisible_def state_of_def initialId_def pendingId_def
        pendingId2_def)
  have c: "m_msg (example_handle 7 None) = QStringLiteral ''Started''"
    by (simp add: example_defs)
  have d: "QStringLiteral ''Started'' \<noteq> []" "take 1 (QStringLiteral ''Started'') \<noteq> [bullet]"
    by (simp_all add: QStringLiteral_def bullet_def)
  have "\<exists>r s' n'. update 0 (QStringLiteral ''Step 2'')
                 (example_world (example_handle 7 None) [(7, 0)] True []) = Some (r, s') \<and>
       objects s' 0 = Some n' \<and>
       m_msg n' = [bullet, 0x20] @ QStringLiteral ''Started'' @ [0x0A, bullet, 0x20] @
                    QStringLiteral ''Step 2''"
    using update_message
        [OF a, of "QStringLiteral ''Step 2''", unfolded Let_def, THEN conjunct2] b c d
    by simp
  with a show ?thesis
    by (rule conjI)
qed

section \<open>Replies and signals of the daemon\<close>

lemma pending_ids [simp]:
  "pendingId \<noteq> pendingId2" "pendingId \<noteq> initialId" "pendingId2 \<noteq> initialId"
  by (simp_all add: pendingId_def pendingId2_def initialId_def)

lemma word_between_1_3:
  fixes r :: "32 word"
  assumes "1 \<le> r" and "r \<le> 3"
  shows "r = 1 \<or> r = 2 \<or> r = 3"
proof -
  have "1 \<le> unat r" and "unat r \<le> 3"
    using assms by (simp_all add: word_le_nat_alt)
  then have "unat r = 1 \<or> unat r = 2 \<or> unat r = 3"
    by arith
  then show ?thesis
    by (simp add: word_unat_eq_iff)
qed

lemma closeReason_eq:
  "closeReason r =
     (if r = 1 then Expired else if r = 2 then Dismissed
      else if r = 3 then ClosedByRequest else Undefined)"
  using word_between_1_3 [of r] by (auto simp: closeReason_def)

text \<open>The two largest identifiers are the two pending values.\<close>

lemma sentinel_iff:
  fixes i :: IDType
  shows "(4294967294 \<le> unat i) = (i = pendingId \<or> i = pendingId2)"
proof -
  have "unat i < 2 ^ 32"
    using unsigned_less [of i, where ?'a = nat] by simp
  then have "(4294967294 \<le> unat i) = (unat i = 4294967295 \<or> unat i = 4294967294)"
    by auto
  then show ?thesis
    by (simp add: pendingId_def pendingId2_def word_unat_eq_iff)
qed

text \<open>
  Claim C6. On \<open>NotificationClosed(id, reason)\<close> for an identifier that the static map
  holds, with the object it belongs to: the identifier of the object becomes 0
  (unassigned), the object emits \<open>closed\<close> with Expired, Dismissed, ClosedByRequest for the
  reasons 1, 2, 3 and Undefined for every other reason, and the identifier is erased from
  the map, all while the mutex is held. For an identifier that the map does not hold the
  mutex is taken and released and nothing else happens: no object changes and no signal is
  emitted.
\<close>

theorem handleNotificationClosed_spec:
  "(pendingNotifications s i = Some a \<and> objects s a = Some n \<longrightarrow>
      handleNotificationClosed i reason s =
        Some (s\<lparr>objects := (objects s)(a \<mapsto> n\<lparr>m_id := initialId\<rparr>),
                pendingNotifications := (pendingNotifications s)(i := None),
                trace := trace s @
                  [Lock,
                   Emit a (Sig_closed (if reason = 1 then Expired
                                       else if reason = 2 then Dismissed
                                       else if reason = 3 then ClosedByRequest else Undefined)),
                   Registry_erase i, Unlock]\<rparr>)) \<and>
   (pendingNotifications s i = None \<longrightarrow>
      handleNotificationClosed i reason s = Some (s\<lparr>trace := trace s @ [Lock, Unlock]\<rparr>))"
  by (simp add: handleNotificationClosed_def Let_def record_event_def registry_erase_def
      set_object_def closeReason_eq)

theorem handleNotificationClosed_spec_witness:
  "pendingNotifications (example_world (example_handle 7 None) [(7, 0)] True []) 7 = Some 0 \<and>
   objects (example_world (example_handle 7 None) [(7, 0)] True []) 0 =
     Some (example_handle 7 None) \<and>
   handleNotificationClosed 7 2 (example_world (example_handle 7 None) [(7, 0)] True []) =
     Some ((example_world (example_handle 7 None) [(7, 0)] True [])
            \<lparr>objects := Map.empty(0 \<mapsto> example_handle 0 None),
             pendingNotifications := Map.empty,
             trace := [Lock, Emit 0 (Sig_closed Dismissed), Registry_erase 7, Unlock]\<rparr>) \<and>
   pendingNotifications (example_world (example_handle 7 None) [(7, 0)] True []) 8 = None \<and>
   handleNotificationClosed 8 2 (example_world (example_handle 7 None) [(7, 0)] True []) =
     Some ((example_world (example_handle 7 None) [(7, 0)] True [])\<lparr>trace := [Lock, Unlock]\<rparr>)"
  using handleNotificationClosed_spec
      [of "example_world (example_handle 7 None) [(7, 0)] True []" 7 0 "example_handle 7 None" 2]
    handleNotificationClosed_spec
      [of "example_world (example_handle 7 None) [(7, 0)] True []" 8 0 "example_handle 7 None" 2]
  by (simp add: example_defs initialId_def)

text \<open>
  Claim C5, as amended. When the reply to \<open>Notify\<close> arrives at \<open>handleNotifyResult\<close>: a
  reply of another watcher than the one the object holds changes nothing. Otherwise the
  watcher is given up and, on an error reply, the identifier becomes 0, the state
  unassigned, and \<open>error\<close> is emitted; on a reply with the identifier \<open>i\<close>, the object is
  entered in the static map under \<open>i\<close> while the mutex is held, its identifier becomes
  \<open>i\<close>, and \<open>shown\<close> is emitted: this is the state \<open>shown\<close> below. The identifier \<open>i\<close>
  is stored as it comes: the state of the object is then \<open>Assigned i\<close> if \<open>i\<close> is neither
  0 nor one of the two pending values. The function returns with the state \<open>shown\<close>,
  unless the identifier was the second pending value before: then it goes on with
  \<open>show()\<close> from that state. In each case the map holds the object under \<open>i\<close> at the end,
  and the trace of \<open>shown\<close> is the beginning of the final trace.
\<close>

theorem handleNotifyResult_spec:
  assumes "objects s this = Some n"
  shows "(Some w \<noteq> m_watcher n \<longrightarrow> handleNotifyResult this w r s = Some s) \<and>
         (Some w = m_watcher n \<longrightarrow>
            handleNotifyResult this w ReplyError s =
              Some (s\<lparr>objects := (objects s)(this \<mapsto> n\<lparr>m_watcher := None, m_id := initialId\<rparr>),
                      trace := trace s @ [Emit this Sig_error]\<rparr>) \<and>
            state_of initialId = Unassigned) \<and>
         (Some w = m_watcher n \<longrightarrow>
            (let shown = s\<lparr>objects := (objects s)(this \<mapsto> n\<lparr>m_watcher := None, m_id := i\<rparr>),
                           pendingNotifications := (pendingNotifications s)(i \<mapsto> this),
                           trace := trace s @ [Lock, Registry_insert i this, Unlock,
                                               Emit this Sig_shown]\<rparr>
             in handleNotifyResult this w (ReplyValue i) s =
                  (if m_id n = pendingId2 then map_option snd (show this shown) else Some shown) \<and>
                (\<exists>s' rest. handleNotifyResult this w (ReplyValue i) s = Some s' \<and>
                   pendingNotifications s' i = Some this \<and>
                   trace s' = trace shown @ rest) \<and>
                object_after this (Some shown) = Some (n\<lparr>m_watcher := None, m_id := i\<rparr>) \<and>
                (i \<noteq> initialId \<and> i \<noteq> pendingId \<and> i \<noteq> pendingId2 \<longrightarrow>
                   state_of i = Assigned i) \<and>
                (m_id n \<noteq> pendingId2 \<longrightarrow>
                   object_after this (handleNotifyResult this w (ReplyValue i) s) =
                     Some (n\<lparr>m_watcher := None, m_id := i\<rparr>))))"
proof -
  let ?shown = "s\<lparr>objects := (objects s)(this \<mapsto> n\<lparr>m_watcher := None, m_id := i\<rparr>),
                  pendingNotifications := (pendingNotifications s)(i \<mapsto> this),
                  trace := trace s @ [Lock, Registry_insert i this, Unlock,
                                      Emit this Sig_shown]\<rparr>"
  have eq: "handleNotifyResult this w (ReplyValue i) s =
              (if m_id n = pendingId2 then map_option snd (show this ?shown) else Some ?shown)"
    if "Some w = m_watcher n"
    using assms that
    by (simp add: handleNotifyResult_def Let_def record_event_def registry_insert_def
        set_object_def)
  have obj: "object_after this (Some ?shown) = Some (n\<lparr>m_watcher := None, m_id := i\<rparr>)"
    by (simp add: object_after_def)
  then have "objects ?shown this = Some (n\<lparr>m_watcher := None, m_id := i\<rparr>)"
    by (simp add: object_after_def)
  from show_effect [OF this] obtain r0 s0 rest where
    s0: "show this ?shown = Some (r0, s0)"
      "pendingNotifications s0 = pendingNotifications ?shown"
      "trace s0 = trace ?shown @ rest"
    by auto
  have ex: "\<exists>s' rest. handleNotifyResult this w (ReplyValue i) s = Some s' \<and>
              pendingNotifications s' i = Some this \<and> trace s' = trace ?shown @ rest"
    if "Some w = m_watcher n"
  proof (cases "m_id n = pendingId2")
    case True
    with eq [OF that] s0 have "handleNotifyResult this w (ReplyValue i) s = Some s0"
      by simp
    with s0 show ?thesis by simp
  next
    case False
    with eq [OF that] have "handleNotifyResult this w (ReplyValue i) s = Some ?shown"
      by simp
    then show ?thesis by simp
  qed
  have st: "i \<noteq> initialId \<and> i \<noteq> pendingId \<and> i \<noteq> pendingId2 \<longrightarrow> state_of i = Assigned i"
    by (simp add: state_of_def)
  have fin: "object_after this (handleNotifyResult this w (ReplyValue i) s) =
               Some (n\<lparr>m_watcher := None, m_id := i\<rparr>)"
    if "Some w = m_watcher n" and "m_id n \<noteq> pendingId2"
    using eq [OF that(1)] that(2) obj by simp
  have other:
    "(Some w \<noteq> m_watcher n \<longrightarrow> handleNotifyResult this w r s = Some s) \<and>
     (Some w = m_watcher n \<longrightarrow>
        handleNotifyResult this w ReplyError s =
          Some (s\<lparr>objects := (objects s)(this \<mapsto> n\<lparr>m_watcher := None, m_id := initialId\<rparr>),
                  trace := trace s @ [Emit this Sig_error]\<rparr>) \<and>
        state_of initialId = Unassigned)"
    using assms
    by (simp add: handleNotifyResult_def Let_def record_event_def set_object_def state_of_def)
  show ?thesis
    unfolding Let_def using other eq ex obj st fin by blast
qed

theorem handleNotifyResult_spec_witness:
  "objects (example_world (example_handle pendingId (Some 0)) [] True [(0, 0)]) 0 =
     Some (example_handle pendingId (Some 0)) \<and>
   Some 1 \<noteq> m_watcher (example_handle pendingId (Some 0)) \<and>
   handleNotifyResult 0 1 (ReplyValue 7)
     (example_world (example_handle pendingId (Some 0)) [] True [(0, 0)]) =
     Some (example_world (example_handle pendingId (Some 0)) [] True [(0, 0)]) \<and>
   Some 0 = m_watcher (example_handle pendingId (Some 0)) \<and>
   handleNotifyResult 0 0 ReplyError
     (example_world (example_handle pendingId (Some 0)) [] True [(0, 0)]) =
     Some ((example_world (example_handle pendingId (Some 0)) [] True [(0, 0)])
             \<lparr>objects := Map.empty(0 \<mapsto> example_handle 0 None),
              trace := [Emit 0 Sig_error]\<rparr>) \<and>
   handleNotifyResult 0 0 (ReplyValue 7)
     (example_world (example_handle pendingId (Some 0)) [] True [(0, 0)]) =
     Some ((example_world (example_handle pendingId (Some 0)) [] True [(0, 0)])
             \<lparr>objects := Map.empty(0 \<mapsto> example_handle 7 None),
              pendingNotifications := Map.empty(7 \<mapsto> 0),
              trace := [Lock, Registry_insert 7 0, Unlock, Emit 0 Sig_shown]\<rparr>) \<and>
   (7 :: IDType) \<noteq> initialId \<and> 7 \<noteq> pendingId \<and> 7 \<noteq> pendingId2 \<and>
   m_id (example_handle pendingId (Some 0)) \<noteq> pendingId2 \<and>
   object_after 0
     (handleNotifyResult 0 0 (ReplyValue 7)
        (example_world (example_handle pendingId (Some 0)) [] True [(0, 0)])) =
     Some (example_handle 7 None) \<and>
   state_of (m_id (example_handle 7 None)) = Assigned 7"
proof -
  let ?W = "example_world (example_handle pendingId (Some 0)) [] True [(0, 0)]"
  let ?H = "example_handle pendingId (Some 0)"
  have a: "objects ?W 0 = Some ?H"
    by (simp add: example_defs)
  have b: "Some 1 \<noteq> m_watcher ?H" "Some 0 = m_watcher ?H" "m_id ?H \<noteq> pendingId2"
    by (simp_all add: example_defs)
  have ids: "(7 :: IDType) \<noteq> initialId" "(7 :: IDType) \<noteq> pendingId" "(7 :: IDType) \<noteq> pendingId2"
    by (simp_all add: initialId_def pendingId_def pendingId2_def)
  have c: "handleNotifyResult 0 1 (ReplyValue 7) ?W = Some ?W"
    using handleNotifyResult_spec [OF a, of 1 "ReplyValue 7" 7] b by simp
  have d: "handleNotifyResult 0 0 ReplyError ?W =
             Some (?W\<lparr>objects := Map.empty(0 \<mapsto> example_handle 0 None),
                      trace := [Emit 0 Sig_error]\<rparr>)"
    using handleNotifyResult_spec [OF a, of 0 ReplyError 7] b
    by (simp add: example_defs initialId_def)
  have e: "handleNotifyResult 0 0 (ReplyValue 7) ?W =
             Some (?W\<lparr>objects := Map.empty(0 \<mapsto> example_handle 7 None),
                      pendingNotifications := Map.empty(7 \<mapsto> 0),
                      trace := [Lock, Registry_insert 7 0, Unlock, Emit 0 Sig_shown]\<rparr>)"
    using handleNotifyResult_spec [OF a, of 0 ReplyError 7] b
    by (simp add: example_defs Let_def)
  have f: "object_after 0 (handleNotifyResult 0 0 (ReplyValue 7) ?W) = Some (example_handle 7 None)"
    by (simp add: e object_after_def)
  have g: "state_of (m_id (example_handle 7 None)) = Assigned 7"
    using handleNotifyResult_spec [OF a, of 0 ReplyError 7] b ids
    by (simp add: example_defs Let_def)
  from a b c d e f g ids show ?thesis
    by simp
qed

text \<open>
  Claim C5 as it is stated fails: the identifier of the reply is stored as it comes, so
  the state does not become \<open>Assigned\<close> for every identifier. After a reply with the
  first pending value, \<open>2^32 - 1\<close>, the state of the notification is the first pending
  state, and after a reply with 0 it is unassigned. And after a reply with 7 to a
  notification in the second pending state, with the interface valid, the function
  returns with the notification in the first pending state, the follow-up request sent.
\<close>

theorem handleNotifyResult_state_counterexample:
  "objects (example_world (example_handle pendingId (Some 0)) [] True [(0, 0)]) 0 =
     Some (example_handle pendingId (Some 0)) \<and>
   object_after 0
     (handleNotifyResult 0 0 (ReplyValue pendingId)
        (example_world (example_handle pendingId (Some 0)) [] True [(0, 0)])) =
     Some (example_handle pendingId None) \<and>
   state_of (m_id (example_handle pendingId None)) = PendingSingle \<and>
   object_after 0
     (handleNotifyResult 0 0 (ReplyValue 0)
        (example_world (example_handle pendingId (Some 0)) [] True [(0, 0)])) =
     Some (example_handle 0 None) \<and>
   state_of (m_id (example_handle 0 None)) = Unassigned \<and>
   objects (example_world (example_handle pendingId2 (Some 0)) [] True [(0, 0)]) 0 =
     Some (example_handle pendingId2 (Some 0)) \<and>
   object_after 0
     (handleNotifyResult 0 0 (ReplyValue 7)
        (example_world (example_handle pendingId2 (Some 0)) [] True [(0, 0)])) =
     Some (example_handle pendingId (Some 1)) \<and>
   state_of (m_id (example_handle pendingId (Some 1))) = PendingSingle"
proof -
  have "objects (example_world (example_handle pendingId (Some 0)) [] True [(0, 0)]) 0 =
          Some (example_handle pendingId (Some 0))"
    and "objects (example_world (example_handle pendingId2 (Some 0)) [] True [(0, 0)]) 0 =
          Some (example_handle pendingId2 (Some 0))"
    by (simp_all add: example_defs)
  moreover have "object_after 0
     (handleNotifyResult 0 0 (ReplyValue pendingId)
        (example_world (example_handle pendingId (Some 0)) [] True [(0, 0)])) =
     Some (example_handle pendingId None)"
    by (simp add: example_defs object_after_def handleNotifyResult_def Let_def set_object_def
        record_event_def registry_insert_def)
  moreover have "object_after 0
     (handleNotifyResult 0 0 (ReplyValue 0)
        (example_world (example_handle pendingId (Some 0)) [] True [(0, 0)])) =
     Some (example_handle 0 None)"
    by (simp add: example_defs object_after_def handleNotifyResult_def Let_def set_object_def
        record_event_def registry_insert_def)
  moreover have "object_after 0
     (handleNotifyResult 0 0 (ReplyValue 7)
        (example_world (example_handle pendingId2 (Some 0)) [] True [(0, 0)])) =
     Some (example_handle pendingId (Some 1))"
    by (simp add: example_defs object_after_def handleNotifyResult_def show_def Let_def
        set_object_def record_event_def registry_insert_def isPending_def initialId_def
        pendingId_def pendingId2_def)
  moreover have "state_of (m_id (example_handle pendingId None)) = PendingSingle"
    "state_of (m_id (example_handle 0 None)) = Unassigned"
    "state_of (m_id (example_handle pendingId (Some 1))) = PendingSingle"
    by (simp_all add: example_defs state_of_def initialId_def pendingId_def)
  ultimately show ?thesis
    by (intro conjI)
qed

text \<open>
  Claim C10, as amended. The two pending values are the two largest identifiers,
  \<open>2^32 - 1\<close> and \<open>2^32 - 2\<close>, and \<open>handleNotifyResult\<close> stores the identifier of a reply
  as it comes. After a reply with the identifier \<open>i\<close> the notification reports pending
  exactly if \<open>i\<close> is one of these two values, or it was in the second pending state and
  the interface is valid (then the follow-up request is outstanding); and it reports
  visible exactly if it does not report pending and \<open>i\<close> is not 0. So after a reply with
  \<open>0 < i < 2^32 - 2\<close> to a notification in the first pending state it reports not pending
  and visible, and after a reply with \<open>2^32 - 1\<close> or \<open>2^32 - 2\<close> it reports pending and
  not visible.
\<close>

theorem reply_identifier_unchecked:
  assumes "objects s this = Some n" and "m_watcher n = Some w"
  shows "unat pendingId = 2 ^ 32 - 1 \<and> unat pendingId2 = 2 ^ 32 - 2 \<and>
         (\<exists>s' n'. handleNotifyResult this w (ReplyValue i) s = Some s' \<and>
            objects s' this = Some n' \<and>
            isPending n' =
              (2 ^ 32 - 2 \<le> unat i \<or> (m_id n = pendingId2 \<and> interfaceValid s)) \<and>
            isVisible n' = (\<not> isPending n' \<and> i \<noteq> 0))"
proof -
  have "\<exists>s' n'. handleNotifyResult this w (ReplyValue i) s = Some s' \<and>
          objects s' this = Some n' \<and>
          isPending n' =
            ((i = pendingId \<or> i = pendingId2) \<or> (m_id n = pendingId2 \<and> interfaceValid s)) \<and>
          isVisible n' = (\<not> isPending n' \<and> i \<noteq> 0)"
    using assms
    by (auto simp: handleNotifyResult_def show_def Let_def set_object_def record_event_def
        registry_insert_def isPending_def isVisible_def state_of_def initialId_def)
  moreover have "unat pendingId = 2 ^ 32 - 1" "unat pendingId2 = 2 ^ 32 - 2"
    by (simp_all add: pendingId_def pendingId2_def)
  ultimately show ?thesis
    by (simp add: sentinel_iff)
qed

theorem reply_identifier_unchecked_witness:
  "objects (example_world (example_handle pendingId (Some 0)) [] True [(0, 0)]) 0 =
     Some (example_handle pendingId (Some 0)) \<and>
   m_watcher (example_handle pendingId (Some 0)) = Some 0 \<and>
   (\<exists>s' n'. handleNotifyResult 0 0 (ReplyValue 7)
               (example_world (example_handle pendingId (Some 0)) [] True [(0, 0)]) = Some s' \<and>
      objects s' 0 = Some n' \<and> \<not> isPending n' \<and> isVisible n') \<and>
   (\<exists>s' n'. handleNotifyResult 0 0 (ReplyValue pendingId)
               (example_world (example_handle pendingId (Some 0)) [] True [(0, 0)]) = Some s' \<and>
      objects s' 0 = Some n' \<and> isPending n' \<and> \<not> isVisible n')"
proof -
  let ?W = "example_world (example_handle pendingId (Some 0)) [] True [(0, 0)]"
  let ?H = "example_handle pendingId (Some 0)"
  have a: "objects ?W 0 = Some ?H" and b: "m_watcher ?H = Some 0"
    by (simp_all add: example_defs)
  have c: "m_id ?H \<noteq> pendingId2"
    by (simp add: example_defs)
  have "\<exists>s' n'. handleNotifyResult 0 0 (ReplyValue 7) ?W = Some s' \<and>
      objects s' 0 = Some n' \<and> \<not> isPending n' \<and> isVisible n'"
    using reply_identifier_unchecked [OF a b, of 7] c by auto
  moreover have "\<exists>s' n'. handleNotifyResult 0 0 (ReplyValue pendingId) ?W = Some s' \<and>
      objects s' 0 = Some n' \<and> isPending n' \<and> \<not> isVisible n'"
    using reply_identifier_unchecked [OF a b, of pendingId] c
    by (auto simp: pendingId_def)
  ultimately show ?thesis
    using a b by simp
qed

text \<open>
  Claim C10 as it is stated fails. The identifier 0 is smaller than \<open>2^32 - 2\<close>: after a
  reply with 0 the notification has the identifier 0, and reports neither pending nor
  visible. And after a reply with the identifier 7 to a notification in the second pending
  state, with the interface valid, the follow-up request has been sent and the
  notification reports pending.
\<close>

theorem reply_identifier_counterexample:
  "objects (example_world (example_handle pendingId (Some 0)) [] True [(0, 0)]) 0 =
     Some (example_handle pendingId (Some 0)) \<and>
   unat (0 :: IDType) < 2 ^ 32 - 2 \<and>
   object_after 0
     (handleNotifyResult 0 0 (ReplyValue 0)
        (example_world (example_handle pendingId (Some 0)) [] True [(0, 0)])) =
     Some (example_handle 0 None) \<and>
   \<not> isPending (example_handle 0 None) \<and> \<not> isVisible (example_handle 0 None) \<and>
   objects (example_world (example_handle pendingId2 (Some 0)) [] True [(0, 0)]) 0 =
     Some (example_handle pendingId2 (Some 0)) \<and>
   unat (7 :: IDType) < 2 ^ 32 - 2 \<and>
   object_after 0
     (handleNotifyResult 0 0 (ReplyValue 7)
        (example_world (example_handle pendingId2 (Some 0)) [] True [(0, 0)])) =
     Some (example_handle pendingId (Some 1)) \<and>
   isPending (example_handle pendingId (Some 1))"
  by (simp add: example_defs object_after_def handleNotifyResult_def show_def Let_def
      set_object_def record_event_def registry_insert_def isPending_def isVisible_def
      state_of_def initialId_def pendingId_def pendingId2_def)

text \<open>What \<open>handleActionInvoked\<close> does in every state: for an identifier that the static map
  holds, with the object it belongs to, and for an identifier that the map does not hold.\<close>

lemma handleActionInvoked_effect:
  "(pendingNotifications s i = Some a \<and> objects s a = Some n \<longrightarrow>
      handleActionInvoked i action erased_first s =
        Some (s\<lparr>objects := (objects s)(a \<mapsto> n\<lparr>m_id := initialId\<rparr>),
                pendingNotifications := (pendingNotifications s)(i := None),
                trace := trace s @
                  [Lock, Emit a (Sig_actionInvoked action), Emit a (Sig_closed ActionInvoked),
                   Registry_erase i, Call (CloseNotification erased_first), Unlock]\<rparr>)) \<and>
   (pendingNotifications s i = None \<longrightarrow>
      handleActionInvoked i action erased_first s = Some (s\<lparr>trace := trace s @ [Lock, Unlock]\<rparr>))"
  by (simp add: handleActionInvoked_def Let_def record_event_def registry_erase_def
      set_object_def)

text \<open>
  Claim C3, at the state of the spec's scenario E (the notification at address 0 is
  assigned the identifier 7, the map holds it under 7) and the signal
  \<open>ActionInvoked(7, "retry")\<close>. The object emits \<open>actionInvoked("retry")\<close> and then
  \<open>closed(ActionInvoked)\<close>, its identifier becomes 0 and 7 is erased from the map, as the
  claim says. The identifier that \<open>CloseNotification\<close> is called with is not 7 but
  \<open>erased_first\<close>, the value that the read of \<^verbatim>\<open>i->first\<close> finds after the element was
  erased.
\<close>

theorem handleActionInvoked_close_argument:
  "handleActionInvoked 7 (QStringLiteral ''retry'') erased_first
     (example_world (example_handle 7 None) [(7, 0)] True []) =
   Some ((example_world (example_handle 7 None) [(7, 0)] True [])
           \<lparr>objects := Map.empty(0 \<mapsto> example_handle 0 None),
            pendingNotifications := Map.empty,
            trace := [Lock, Emit 0 (Sig_actionInvoked (QStringLiteral ''retry'')),
                      Emit 0 (Sig_closed ActionInvoked), Registry_erase 7,
                      Call (CloseNotification erased_first), Unlock]\<rparr>)"
  by (simp add: example_defs handleActionInvoked_def Let_def set_object_def record_event_def
      registry_erase_def initialId_def)

text \<open>
  Claim C4, at the same state and signal: the trace of \<open>handleActionInvoked\<close> has the call
  of \<open>CloseNotification\<close> between \<open>Lock\<close> and \<open>Unlock\<close>, so one call on the D-Bus
  interface is made while the mutex is held.
\<close>

theorem handleActionInvoked_calls_under_lock:
  "map_option trace
     (handleActionInvoked 7 (QStringLiteral ''retry'') erased_first
        (example_world (example_handle 7 None) [(7, 0)] True [])) =
     Some [Lock, Emit 0 (Sig_actionInvoked (QStringLiteral ''retry'')),
           Emit 0 (Sig_closed ActionInvoked), Registry_erase 7,
           Call (CloseNotification erased_first), Unlock] \<and>
   calls_under_lock False
     [Lock, Emit 0 (Sig_actionInvoked (QStringLiteral ''retry'')),
      Emit 0 (Sig_closed ActionInvoked), Registry_erase 7,
      Call (CloseNotification erased_first), Unlock] = [CloseNotification erased_first]"
  by (simp add: example_defs handleActionInvoked_def Let_def set_object_def record_event_def
      registry_erase_def initialId_def)

text \<open>The other functions make their calls on the D-Bus interface while the mutex is free:
  the destructor and \<open>handleNotifyResult\<close> release it at the end of an inner block,
  \<open>handleNotificationClosed\<close> makes no call, and \<open>show\<close> and \<open>hide\<close> do not take it.\<close>

lemma show_outside_lock:
  "show this s = Some (r, s') \<Longrightarrow> calls_under_lock False (added_events s s') = []"
  by (auto simp: show_def Let_def set_object_def record_event_def added_events_def
      split: option.splits if_splits)

lemma hide_outside_lock:
  "hide this s = Some (r, s') \<Longrightarrow> calls_under_lock False (added_events s s') = []"
  by (auto simp: hide_def record_event_def added_events_def split: option.splits if_splits)

lemma queryCapabilities_outside_lock:
  "queryCapabilities s = (r, s') \<Longrightarrow> calls_under_lock False (added_events s s') = []"
  by (auto simp: queryCapabilities_def record_event_def added_events_def split: if_splits)

lemma handleNotificationClosed_outside_lock:
  "handleNotificationClosed i reason s = Some s' \<Longrightarrow>
     calls_under_lock False (added_events s s') = []"
  by (auto simp: handleNotificationClosed_def Let_def set_object_def record_event_def
      registry_erase_def added_events_def split: option.splits)

lemma destroy_outside_lock:
  "destroy this s = Some s' \<Longrightarrow> calls_under_lock False (added_events s s') = []"
  by (auto simp: destroy_def hide_def Let_def record_event_def registry_erase_def
      added_events_def split: option.splits if_splits)

lemma handleNotifyResult_outside_lock:
  "handleNotifyResult this w rep s = Some s' \<Longrightarrow>
     calls_under_lock False (added_events s s') = []"
  by (auto simp: handleNotifyResult_def show_def Let_def set_object_def record_event_def
      registry_insert_def added_events_def split: option.splits if_splits reply.splits)

section \<open>Coalescing of requests\<close>

lemma fresh_watched: "fresh this s \<Longrightarrow> watched this s"
  by (auto simp: fresh_def watched_def split: option.splits)

lemma show_watched:
  assumes "watched this s" and "show this s = Some (r, s')"
  shows "watched this s'"
  using assms
  by (auto simp: watched_def show_def Let_def set_object_def record_event_def outstanding_def
      isPending_def split: option.splits if_splits)

lemma set_msg_watched:
  assumes "watched this s" and "objects s this = Some n"
  shows "watched this (set_object this (n\<lparr>m_msg := m\<rparr>) s)"
  using assms
  by (auto simp: watched_def set_object_def outstanding_def isPending_def split: option.splits)

text \<open>A reply can only be delivered for the call of the watcher that the object holds; when
  it has been delivered, no call of the object is outstanding, and \<open>handleNotifyResult\<close>
  sends at most one new one.\<close>

lemma deliver_watched:
  assumes "watched this s" and "deliver this w r s = Some s'"
  shows "watched this s'"
proof -
  from assms(2) have mem: "(w, this) \<in> set (pendingCalls s)"
    by (auto simp: deliver_def split: if_splits)
  let ?s0 = "s\<lparr>pendingCalls := remove1 (w, this) (pendingCalls s)\<rparr>"
  from assms(2) mem have h: "handleNotifyResult this w r ?s0 = Some s'"
    by (simp add: deliver_def)
  from assms(1) obtain n where n: "objects s this = Some n"
    by (auto simp: watched_def split: option.splits)
  from mem have "(w, this) \<in> set (outstanding this s)"
    by (simp add: outstanding_def)
  with assms(1) n have w: "m_watcher n = Some w" and o: "outstanding this s = [(w, this)]"
    by (auto simp: watched_def split: option.splits)
  have o0: "outstanding this ?s0 = []"
    using o by (simp add: outstanding_def filter_remove1)
  let ?n1 = "n\<lparr>m_watcher := None\<rparr>"
  show ?thesis
  proof (cases r)
    case ReplyError
    with h n w have
      "s' = record_event (Emit this Sig_error) (set_object this (?n1\<lparr>m_id := initialId\<rparr>) ?s0)"
      by (simp add: handleNotifyResult_def Let_def)
    with o0 show ?thesis
      by (simp add: watched_def set_object_def record_event_def outstanding_def)
  next
    case (ReplyValue i)
    let ?s4 = "record_event (Emit this Sig_shown) (record_event Unlock
                 (registry_insert i this
                    (set_object this (?n1\<lparr>m_id := i\<rparr>) (record_event Lock ?s0))))"
    have w4: "watched this ?s4"
      using o0
      by (simp add: watched_def set_object_def record_event_def registry_insert_def
          outstanding_def)
    from h n w ReplyValue have "s' = ?s4 \<or> (\<exists>r'. show this ?s4 = Some (r', s'))"
      by (auto simp: handleNotifyResult_def Let_def split: if_splits)
    with w4 show ?thesis
      using show_watched by blast
  qed
qed

lemma step_watched:
  assumes "watched this s" and "step this x s = Some s'"
  shows "watched this s'"
proof (cases x)
  case Op_show
  with assms show ?thesis by (auto intro: show_watched)
next
  case (Op_show_message m)
  with assms show ?thesis
    by (auto simp: show_message_def split: option.splits intro: show_watched set_msg_watched)
next
  case (Op_update l)
  with assms show ?thesis
    by (auto simp: update_def Let_def split: option.splits intro: show_watched set_msg_watched)
next
  case (Op_interface v)
  with assms show ?thesis
    by (auto simp: watched_def outstanding_def split: option.splits)
next
  case (Op_reply w r)
  with assms show ?thesis by (auto intro: deliver_watched)
qed

lemma run_watched:
  "watched this s \<Longrightarrow> run this xs s = Some s' \<Longrightarrow> watched this s'"
proof (induction xs arbitrary: s)
  case Nil
  then show ?case by simp
next
  case (Cons x xs)
  then show ?case
    by (auto split: option.splits dest: step_watched)
qed

lemma watched_outstanding: "watched this s \<Longrightarrow> length (outstanding this s) \<le> 1"
  by (auto simp: watched_def split: option.splits)

text \<open>Calls of the caller always return.\<close>

lemma step_call_defined:
  assumes "watched this s" and "is_call x"
  shows "\<exists>s'. step this x s = Some s'"
proof -
  from assms(1) obtain n where n: "objects s this = Some n"
    by (auto simp: watched_def split: option.splits)
  have sh: "\<exists>s'. map_option snd (show this (set_object this m s)) = Some s'" for m
    by (auto simp: show_def set_object_def Let_def)
  have sh0: "\<exists>s'. map_option snd (show this s) = Some s'"
    using n by (auto simp: show_def Let_def)
  show ?thesis
  proof (cases x)
    case Op_show
    with sh0 show ?thesis by simp
  next
    case (Op_show_message m)
    with n sh show ?thesis by (simp add: show_message_def)
  next
    case (Op_update l)
    with n sh show ?thesis by (simp add: update_def Let_def)
  next
    case (Op_interface v)
    then show ?thesis by simp
  next
    case (Op_reply w r)
    with assms(2) show ?thesis by simp
  qed
qed

lemma run_calls_defined:
  "watched this s \<Longrightarrow> list_all is_call xs \<Longrightarrow> \<exists>s'. run this xs s = Some s'"
proof (induction xs arbitrary: s)
  case Nil
  then show ?case by simp
next
  case (Cons x xs)
  from Cons.prems obtain s1 where s1: "step this x s = Some s1"
    using step_call_defined by fastforce
  with Cons.prems have "watched this s1"
    using step_watched by blast
  with Cons s1 show ?case
    by simp
qed

lemma notify_count_reply:
  assumes "objects s this = Some n" and "m_watcher n = Some w"
  shows "\<exists>s'. handleNotifyResult this w (ReplyValue i) s = Some s' \<and>
           notify_count s' = notify_count s +
             (if m_id n = pendingId2 \<and> interfaceValid s \<and> i \<noteq> pendingId \<and> i \<noteq> pendingId2
              then 1 else 0)"
  using assms
  by (auto simp: handleNotifyResult_def show_def Let_def set_object_def record_event_def
      registry_insert_def notify_count_def isPending_def)

text \<open>
  Claim C1, as amended. For a notification and every sequence of \<open>show()\<close>, \<open>show(message)\<close>
  and \<open>update(line)\<close> calls on it from its construction on, with the replies delivered and
  the daemon appearing and disappearing in between: the calls return, and at every moment
  at most one \<open>Notify\<close> request of the notification is outstanding. \<open>show()\<close> on a pending
  notification sends no request, sets the identifier to the second pending value and
  returns true. When the reply with an identifier arrives for the watcher of the
  notification, \<open>handleNotifyResult\<close> sends exactly one follow-up \<open>Notify\<close> request if the
  notification was in the second pending state, the interface is valid and the identifier
  of the reply is not one of the two pending values; it sends none otherwise.
\<close>

theorem coalesced_requests:
  "(fresh this s0 \<and> list_all is_call calls \<longrightarrow> (\<exists>s'. run this calls s0 = Some s')) \<and>
   (fresh this s0 \<and> run this ops s0 = Some s1 \<longrightarrow> length (outstanding this s1) \<le> 1) \<and>
   (objects s this = Some n \<and> isPending n \<longrightarrow>
      show this s = Some (True, s\<lparr>objects := (objects s)(this \<mapsto> n\<lparr>m_id := pendingId2\<rparr>)\<rparr>)) \<and>
   (objects s this = Some n \<and> m_watcher n = Some w \<longrightarrow>
      (\<exists>s'. handleNotifyResult this w (ReplyValue i) s = Some s' \<and>
         notify_count s' = notify_count s +
           (if m_id n = pendingId2 \<and> interfaceValid s \<and> i \<noteq> pendingId \<and> i \<noteq> pendingId2
            then 1 else 0)))"
proof (intro conjI impI)
  assume "fresh this s0 \<and> list_all is_call calls"
  then show "\<exists>s'. run this calls s0 = Some s'"
    using fresh_watched run_calls_defined by blast
next
  assume "fresh this s0 \<and> run this ops s0 = Some s1"
  then have "watched this s1"
    using fresh_watched run_watched by blast
  then show "length (outstanding this s1) \<le> 1"
    by (rule watched_outstanding)
next
  assume "objects s this = Some n \<and> isPending n"
  then show "show this s =
      Some (True, s\<lparr>objects := (objects s)(this \<mapsto> n\<lparr>m_id := pendingId2\<rparr>)\<rparr>)"
    by (simp add: show_def set_object_def)
next
  assume "objects s this = Some n \<and> m_watcher n = Some w"
  then show "\<exists>s'. handleNotifyResult this w (ReplyValue i) s = Some s' \<and>
         notify_count s' = notify_count s +
           (if m_id n = pendingId2 \<and> interfaceValid s \<and> i \<noteq> pendingId \<and> i \<noteq> pendingId2
            then 1 else 0)"
    using notify_count_reply by blast
qed

lemmas run_defs = show_def deliver_def handleNotifyResult_def Let_def set_object_def
  record_event_def registry_insert_def isPending_def

theorem coalesced_requests_witness:
  "fresh 0 (example_world (example_handle 0 None) [] True []) \<and>
   list_all is_call [Op_show, Op_update (QStringLiteral ''Step 2''), Op_show] \<and>
   (\<exists>s1. run 0 [Op_show, Op_update (QStringLiteral ''Step 2''), Op_show]
            (example_world (example_handle 0 None) [] True []) = Some s1) \<and>
   (\<exists>s1. run 0 [Op_show, Op_show, Op_show, Op_reply 0 (ReplyValue 7)]
            (example_world (example_handle 0 None) [] True []) = Some s1 \<and>
          length (outstanding 0 s1) \<le> 1) \<and>
   objects (example_world (example_handle pendingId (Some 0)) [] True [(0, 0)]) 0 =
     Some (example_handle pendingId (Some 0)) \<and>
   isPending (example_handle pendingId (Some 0)) \<and>
   show 0 (example_world (example_handle pendingId (Some 0)) [] True [(0, 0)]) =
     Some (True, example_world (example_handle pendingId2 (Some 0)) [] True [(0, 0)]) \<and>
   objects (example_world (example_handle pendingId2 (Some 0)) [] True [(0, 0)]) 0 =
     Some (example_handle pendingId2 (Some 0)) \<and>
   m_watcher (example_handle pendingId2 (Some 0)) = Some 0 \<and>
   (\<exists>s'. handleNotifyResult 0 0 (ReplyValue 7)
            (example_world (example_handle pendingId2 (Some 0)) [] True [(0, 0)]) = Some s' \<and>
          notify_count s' = 1)"
proof -
  let ?W0 = "example_world (example_handle 0 None) [] True []"
  let ?W1 = "example_world (example_handle pendingId (Some 0)) [] True [(0, 0)]"
  let ?W2 = "example_world (example_handle pendingId2 (Some 0)) [] True [(0, 0)]"
  let ?ops = "[Op_show, Op_show, Op_show, Op_reply 0 (ReplyValue 7)]"
  let ?calls = "[Op_show, Op_update (QStringLiteral ''Step 2''), Op_show]"
  have f: "fresh 0 ?W0"
    by (simp add: fresh_def example_defs initialId_def outstanding_def)
  have c: "list_all is_call ?calls"
    by simp
  have ret: "\<exists>s1. run 0 ?calls ?W0 = Some s1"
    using coalesced_requests [of 0 ?W0 ?calls] f c by blast
  have "\<exists>s1. run 0 ?ops ?W0 = Some s1"
    by (simp add: example_defs run_defs initialId_def pendingId_def pendingId2_def)
  then obtain s1 where r: "run 0 ?ops ?W0 = Some s1" ..
  with f have "length (outstanding 0 s1) \<le> 1"
    using coalesced_requests [of 0 ?W0 "[]" ?ops s1] by simp
  with r have one: "\<exists>s1. run 0 ?ops ?W0 = Some s1 \<and> length (outstanding 0 s1) \<le> 1"
    by blast
  have a1: "objects ?W1 0 = Some (example_handle pendingId (Some 0))"
    and p1: "isPending (example_handle pendingId (Some 0))"
    by (simp_all add: example_defs isPending_def)
  have sh: "show 0 ?W1 = Some (True, ?W2)"
    using coalesced_requests
        [of 0 ?W0 "[]" "[]" ?W0 ?W1 "example_handle pendingId (Some 0)"] a1 p1
    by (simp add: example_defs)
  have a2: "objects ?W2 0 = Some (example_handle pendingId2 (Some 0))"
    and w2: "m_watcher (example_handle pendingId2 (Some 0)) = Some 0"
    by (simp_all add: example_defs)
  have re: "\<exists>s'. handleNotifyResult 0 0 (ReplyValue 7) ?W2 = Some s' \<and> notify_count s' = 1"
    using coalesced_requests
        [of 0 ?W0 "[]" "[]" ?W0 ?W2 "example_handle pendingId2 (Some 0)" 0 7] a2 w2
    by (simp add: example_defs notify_count_def pendingId_def pendingId2_def initialId_def)
  from f c ret one a1 p1 sh a2 w2 re show ?thesis
    by blast
qed

text \<open>
  Claim C1 as it is stated fails: a notification in the second pending state whose reply
  arrives when the interface is not valid gets no follow-up request; the \<open>show()\<close> at the
  end of \<open>handleNotifyResult\<close> emits \<open>error\<close> instead.
\<close>

theorem coalesced_requests_counterexample:
  "objects (example_world (example_handle pendingId2 (Some 0)) [] False [(0, 0)]) 0 =
     Some (example_handle pendingId2 (Some 0)) \<and>
   state_of (m_id (example_handle pendingId2 (Some 0))) = PendingCoalesced \<and>
   m_watcher (example_handle pendingId2 (Some 0)) = Some 0 \<and>
   map_option trace
     (handleNotifyResult 0 0 (ReplyValue 7)
        (example_world (example_handle pendingId2 (Some 0)) [] False [(0, 0)])) =
     Some [Lock, Registry_insert 7 0, Unlock, Emit 0 Sig_shown, Emit 0 Sig_error] \<and>
   map_option notify_count
     (handleNotifyResult 0 0 (ReplyValue 7)
        (example_world (example_handle pendingId2 (Some 0)) [] False [(0, 0)])) = Some 0"
  by (simp add: example_defs run_defs state_of_def notify_count_def pendingId_def pendingId2_def
      initialId_def)

section \<open>The image codec\<close>

lemma swap32_swap32: "swap32 (swap32 xs) = xs"
  by (induction xs rule: swap32.induct) simp_all

lemma length_swap32: "length (swap32 xs) = length xs"
  by (induction xs rule: swap32.induct) simp_all

text \<open>Cutting a buffer into \<open>h\<close> rows of \<open>n\<close> bytes and joining the rows gives the buffer.\<close>

lemma concat_rows:
  "n * h \<le> length xs \<Longrightarrow> concat (map (\<lambda>y. take n (drop (y * n) xs)) [0..<h]) = take (n * h) xs"
proof (induction h)
  case 0
  then show ?case by simp
next
  case (Suc h)
  then have "concat (map (\<lambda>y. take n (drop (y * n) xs)) [0..<h]) = take (n * h) xs"
    by simp
  then have "concat (map (\<lambda>y. take n (drop (y * n) xs)) [0..<Suc h]) =
             take (n * h) xs @ take n (drop (n * h) xs)"
    by (simp add: mult.commute)
  also have "\<dots> = take (n * h + n) xs"
    by (rule take_add [symmetric])
  also have "n * h + n = n * Suc h"
    by simp
  finally show ?case .
qed

text \<open>Row \<open>y\<close> of a buffer that was joined from rows of \<open>n\<close> bytes.\<close>

lemma row_of_concat:
  "\<forall>xs \<in> set xss. length xs = n \<Longrightarrow> y < length xss \<Longrightarrow>
     take n (drop (y * n) (concat xss)) = xss ! y"
proof (induction xss arbitrary: y)
  case Nil
  then show ?case by simp
next
  case (Cons x xss)
  show ?case
  proof (cases y)
    case 0
    with Cons.prems show ?thesis by simp
  next
    case (Suc k)
    with Cons.prems have "take n (drop (k * n) (concat xss)) = xss ! k"
      by (intro Cons.IH) simp_all
    with Suc Cons.prems show ?thesis by simp
  qed
qed

lemma stride_32: "f = Format_RGB32 \<or> f = Format_ARGB32 \<Longrightarrow> stride f w = 4 * w"
  by (auto simp: stride_def)

text \<open>On an image of 32 bits per pixel, \<open>rgbSwapped\<close> keeps format and size and undoes
  itself.\<close>

lemma rgbSwapped_32:
  assumes wf: "wf_image b" and f: "img_format b = Format_RGB32 \<or> img_format b = Format_ARGB32"
  shows "wf_image (rgbSwapped b)" and "rgbSwapped (rgbSwapped b) = b"
    and "img_format (rgbSwapped b) = img_format b"
    and "img_width (rgbSwapped b) = img_width b"
    and "img_height (rgbSwapped b) = img_height b"
proof -
  let ?w = "img_width b" and ?h = "img_height b"
  let ?rows = "map (\<lambda>y. swap32 (scanLine b y)) [0..<?h]"
  have bpl: "bytesPerLine b = 4 * ?w"
    using f by (simp add: bytesPerLine_def stride_32)
  have len: "length (img_bits b) = 4 * ?w * ?h"
    using wf bpl by (simp add: wf_image_def sizeInBytes_def)
  have nn: "\<not> isNull b"
    using f by (auto simp: isNull_def)
  have line_len: "length (scanLine b y) = 4 * ?w" if "y < ?h" for y
  proof -
    from that have "Suc y \<le> ?h" by simp
    then have "Suc y * (4 * ?w) \<le> ?h * (4 * ?w)" by (rule mult_le_mono1)
    then have "y * (4 * ?w) + 4 * ?w \<le> length (img_bits b)"
      using len by (simp add: mult.commute)
    then show ?thesis
      by (simp add: scanLine_def bpl)
  qed
  have sw: "rgbSwapped b = b\<lparr>img_bits := concat ?rows\<rparr>"
    using f nn by (auto simp: rgbSwapped_def swap_line_def)
  have rows_len: "\<forall>xs \<in> set ?rows. length xs = 4 * ?w"
    by (auto simp: length_swap32 line_len)
  have len': "length (concat ?rows) = 4 * ?w * ?h"
  proof -
    have "map length ?rows = map (\<lambda>y. 4 * ?w) [0..<?h]"
      by (simp add: length_swap32 line_len)
    then show ?thesis
      by (simp add: length_concat sum_list_triv del: map_map)
  qed
  show "img_format (rgbSwapped b) = img_format b" "img_width (rgbSwapped b) = img_width b"
    "img_height (rgbSwapped b) = img_height b"
    by (simp_all add: sw)
  show "wf_image (rgbSwapped b)"
    using wf len'
    by (simp add: sw wf_image_def sizeInBytes_def bytesPerLine_def isNull_def
        bpl [unfolded bytesPerLine_def])
  have row': "scanLine (b\<lparr>img_bits := concat ?rows\<rparr>) y = swap32 (scanLine b y)"
    if "y < ?h" for y
  proof -
    have "take (4 * ?w) (drop (y * (4 * ?w)) (concat ?rows)) = ?rows ! y"
      using rows_len that by (intro row_of_concat) simp_all
    then show ?thesis
      using that by (simp add: scanLine_def bytesPerLine_def bpl [unfolded bytesPerLine_def])
  qed
  have "rgbSwapped (rgbSwapped b) =
          b\<lparr>img_bits :=
              concat (map (\<lambda>y. swap32 (scanLine (b\<lparr>img_bits := concat ?rows\<rparr>) y)) [0..<?h])\<rparr>"
    using f nn by (auto simp: sw rgbSwapped_def swap_line_def isNull_def)
  also have "map (\<lambda>y. swap32 (scanLine (b\<lparr>img_bits := concat ?rows\<rparr>) y)) [0..<?h] =
             map (\<lambda>y. scanLine b y) [0..<?h]"
    by (rule map_cong) (simp_all add: row' swap32_swap32)
  also have "concat (map (\<lambda>y. scanLine b y) [0..<?h]) = img_bits b"
    using concat_rows [of "4 * ?w" ?h "img_bits b"] len by (simp add: scanLine_def bpl)
  finally show "rgbSwapped (rgbSwapped b) = b"
    by simp
qed

lemma static_cast_int_small: "x < 2 ^ 31 \<Longrightarrow> static_cast_int x = int x"
  by (simp add: static_cast_int_def Let_def)

text \<open>A count of \<open>2^31\<close> bytes, as of a 32768x16384 image of 32 bits per pixel, becomes
  negative, and the byte array is then not a copy of the whole buffer.\<close>

lemma static_cast_int_large: "static_cast_int (2 ^ 31) = - (2 ^ 31)"
  by (simp add: static_cast_int_def Let_def)

text \<open>
  Claim C8, as amended. For every bitmap \<open>b\<close> that is not null, is stored with 32 bits per
  pixel, in \<^verbatim>\<open>Format_RGB32\<close> or \<^verbatim>\<open>Format_ARGB32\<close>, and has less than \<open>2^31\<close> bytes of
  pixel data (so that the byte count is a value of an \<^verbatim>\<open>int\<close>), the round trip (a
  \<open>NotificationImage\<close> constructed from the red/blue-swapped bitmap, converted back by
  \<open>toQImage\<close>) gives \<open>b\<close> itself: the same format, size and bytes, so also the same
  pixels. For a \<open>NotificationImage\<close> whose \<open>isValid\<close> is false, \<open>toQImage\<close> returns the
  null bitmap. (Whether the pixels are all grey plays no part: \<open>toQImage\<close> does not read
  \<open>channels\<close>.)
\<close>

theorem roundtrip_32bit:
  "(wf_image b \<and> (img_format b = Format_RGB32 \<or> img_format b = Format_ARGB32) \<and>
    sizeInBytes b < 2 ^ 31 \<longrightarrow>
      (\<exists>ni d. encode b = Some ni \<and> toQImage ni = Some d \<and> roundtrip b = Some d \<and>
              d = b \<and> pixel_identical d b)) \<and>
   (\<not> isValid nv \<longrightarrow> toQImage nv = Some QImage_null)"
proof (intro conjI impI)
  assume "\<not> isValid nv"
  then show "toQImage nv = Some QImage_null"
    by (simp add: toQImage_def)
next
  assume a: "wf_image b \<and> (img_format b = Format_RGB32 \<or> img_format b = Format_ARGB32) \<and>
             sizeInBytes b < 2 ^ 31"
  then have wf: "wf_image b" and f: "img_format b = Format_RGB32 \<or> img_format b = Format_ARGB32"
    and small: "sizeInBytes b < 2 ^ 31"
    by simp_all
  note sw = rgbSwapped_32 [OF wf f]
  let ?s = "rgbSwapped b"
  have pos: "0 < img_width b" "0 < img_height b"
    using wf f by (auto simp: wf_image_def isNull_def)
  have size: "sizeInBytes ?s = sizeInBytes b"
    by (simp add: sizeInBytes_def bytesPerLine_def sw)
  have len: "length (img_bits ?s) = sizeInBytes b"
    using sw(1) size by (simp add: wf_image_def)
  have bytes: "QByteArray_from (img_bits ?s) (static_cast_int (sizeInBytes ?s)) =
                 Some (img_bits ?s)"
    using small len by (simp add: size static_cast_int_small QByteArray_from_def)
  define ni where
    "ni = \<lparr>width = int (img_width ?s), height = int (img_height ?s),
            rowstride = static_cast_int (bytesPerLine ?s), hasAlpha = hasAlphaChannel ?s,
            channels = (if isGrayscale ?s then 1 else if hasAlphaChannel ?s then 4 else 3),
            bitsPerSample = int (depth ?s) div
              (if isGrayscale ?s then 1 else if hasAlphaChannel ?s then 4 else 3),
            data = img_bits ?s, isValid = (\<not> isNull ?s)\<rparr>"
  have enc: "encode b = Some ni"
    by (simp add: encode_def SwappedImage_def NotificationImage_of_QImage_def Let_def bytes
        ni_def)
  have fmt: "(if hasAlphaChannel ?s then Format_ARGB32 else Format_RGB32) = img_format b"
    using f by (auto simp: hasAlphaChannel_def sw)
  have rec: "\<lparr>img_format = img_format b, img_width = img_width b, img_height = img_height b,
               img_bits = img_bits ?s\<rparr> = ?s"
    using sw(3-5) by (cases ?s) simp
  have len': "length (img_bits ?s) = stride (img_format b) (img_width b) * img_height b"
    using len by (simp add: sizeInBytes_def bytesPerLine_def)
  have "QImage_from_data (img_bits ?s) (int (img_width b)) (int (img_height b)) (img_format b) =
          Some ?s"
    using pos f len' by (auto simp: QImage_from_data_def rec)
  moreover have nn: "img_format b \<noteq> Format_Invalid"
    using f by auto
  ultimately have "toQImage ni = Some (rgbSwapped ?s)"
    by (simp add: toQImage_def ni_def fmt sw isNull_def)
  then have dec: "toQImage ni = Some b"
    by (simp add: sw)
  moreover have "pixel_identical b b"
    by (simp add: pixel_identical_def list_all_iff)
  moreover from enc dec have "roundtrip b = Some b"
    by (simp add: roundtrip_def)
  ultimately show "\<exists>ni d. encode b = Some ni \<and> toQImage ni = Some d \<and> roundtrip b = Some d \<and>
                     d = b \<and> pixel_identical d b"
    using enc by simp
qed

theorem roundtrip_32bit_witness:
  "wf_image example_argb32 \<and> img_format example_argb32 = Format_ARGB32 \<and>
   sizeInBytes example_argb32 < 2 ^ 31 \<and>
   roundtrip example_argb32 = Some example_argb32 \<and>
   encode QImage_null =
     Some \<lparr>width = 0, height = 0, rowstride = 0, hasAlpha = False, channels = 3,
           bitsPerSample = 0, data = [], isValid = False\<rparr> \<and>
   roundtrip QImage_null = Some QImage_null"
proof -
  let ?nv = "\<lparr>width = 0, height = 0, rowstride = 0, hasAlpha = False, channels = 3,
              bitsPerSample = 0, data = [], isValid = False\<rparr>"
  have wf: "wf_image example_argb32"
    by (simp add: wf_image_def example_argb32_def sizeInBytes_def bytesPerLine_def stride_def
        isNull_def)
  have f: "img_format example_argb32 = Format_ARGB32"
    by (simp add: example_argb32_def)
  have small: "sizeInBytes example_argb32 < 2 ^ 31"
    by (simp add: example_argb32_def sizeInBytes_def bytesPerLine_def stride_def)
  have enc: "encode QImage_null = Some ?nv"
    by (simp add: encode_def SwappedImage_def rgbSwapped_def NotificationImage_of_QImage_def
        QImage_null_def isNull_def Let_def QByteArray_from_def static_cast_int_def
        sizeInBytes_def bytesPerLine_def stride_def hasAlphaChannel_def isGrayscale_def
        depth_def)
  have inv: "\<not> isValid ?nv"
    by simp
  have "roundtrip example_argb32 = Some example_argb32" and "toQImage ?nv = Some QImage_null"
    using roundtrip_32bit [of example_argb32 ?nv] wf f small inv by auto
  with wf f small enc show ?thesis
    by (simp add: roundtrip_def)
qed

text \<open>
  Claim C8 as it is stated fails: the 1x1 bitmap in \<^verbatim>\<open>Format_RGB888\<close> with the colour
  (red 1, green 2, blue 3) is not null, not grayscale and not indexed; the round trip
  returns a \<^verbatim>\<open>Format_RGB32\<close> bitmap whose only pixel is (red 3, green 2, blue 1).
\<close>

theorem roundtrip_rgb888_counterexample:
  "wf_image example_rgb888 \<and> \<not> isNull example_rgb888 \<and> \<not> isGrayscale example_rgb888 \<and>
   roundtrip example_rgb888 =
     Some \<lparr>img_format = Format_RGB32, img_width = 1, img_height = 1, img_bits = [1, 2, 3, 0]\<rparr> \<and>
   pixel \<lparr>img_format = Format_RGB32, img_width = 1, img_height = 1, img_bits = [1, 2, 3, 0]\<rparr> 0 0 =
     Some (0xFF, 3, 2, 1) \<and>
   pixel example_rgb888 0 0 = Some (0xFF, 1, 2, 3) \<and>
   \<not> pixel_identical
       \<lparr>img_format = Format_RGB32, img_width = 1, img_height = 1, img_bits = [1, 2, 3, 0]\<rparr>
       example_rgb888"
proof -
  have "wf_image example_rgb888" and "\<not> isNull example_rgb888"
    by (simp_all add: wf_image_def example_rgb888_def sizeInBytes_def bytesPerLine_def
        stride_def isNull_def)
  moreover have "\<not> isGrayscale example_rgb888"
    by code_simp
  moreover have "roundtrip example_rgb888 =
     Some \<lparr>img_format = Format_RGB32, img_width = 1, img_height = 1, img_bits = [1, 2, 3, 0]\<rparr>"
    by code_simp
  moreover have
    "pixel \<lparr>img_format = Format_RGB32, img_width = 1, img_height = 1, img_bits = [1, 2, 3, 0]\<rparr> 0 0 =
       Some (0xFF, 3, 2, 1)"
    by code_simp
  moreover have "pixel example_rgb888 0 0 = Some (0xFF, 1, 2, 3)"
    by code_simp
  moreover have "\<not> pixel_identical
       \<lparr>img_format = Format_RGB32, img_width = 1, img_height = 1, img_bits = [1, 2, 3, 0]\<rparr>
       example_rgb888"
    by code_simp
  ultimately show ?thesis
    by (intro conjI)
qed

end
